theory Spec2Isabelle
  imports Complex_Main
begin

section \<open>The resampler log plotter: \<^verbatim>\<open>python_scripts/plot_resampler.py\<close>\<close>

text \<open>
  The script reads a text log of three sample streams, divides every sample by a fixed
  factor and hands the result to two plotting routines. The model below follows the
  script function by function.

  Conventions of the embedding:
  \<^item> a Python \<^verbatim>\<open>str\<close> is a \<^typ>\<open>string\<close>; a \<^typ>\<open>char\<close> stands for a code point below 256,
    which covers the ASCII logs the script is written for;
  \<^item> an open text file is the list of its lines, as the iteration \<^verbatim>\<open>for line in f\<close> yields
    them (each line may still carry its line terminator, which \<^verbatim>\<open>strip\<close> removes);
  \<^item> a Python \<^verbatim>\<open>int\<close> is an \<^typ>\<open>int\<close>; a Python list is a list;
  \<^item> a numpy array is a list tagged with the element type numpy gives it (64-bit platform):
    \<^verbatim>\<open>int64\<close>, \<^verbatim>\<open>uint64\<close>, \<^verbatim>\<open>float64\<close> or \<^verbatim>\<open>object\<close>;
  \<^item> a \<^verbatim>\<open>float64\<close> value is the \<^typ>\<open>real\<close> number it denotes and a \<^verbatim>\<open>complex128\<close> value a
    \<^typ>\<open>complex\<close> number. The conversion of an integer to \<^verbatim>\<open>float64\<close> is modelled with its
    rounding to 53 significant bits and its overflow; the arithmetic on floats (division,
    product, FFT, logarithm) is the exact arithmetic of the reals, its rounding is not
    modelled;
  \<^item> an exception is a value of type \<open>exn\<close>, and a computation that may raise returns
    \<open>exn + 'a\<close> with \<open>Inl\<close> for the exception;
  \<^item> \<^verbatim>\<open>print\<close> appends a line to the list of lines written to standard output.
\<close>

subsection \<open>Exceptions\<close>

text \<open>
  The exceptions the script can meet. \<^verbatim>\<open>SystemExit\<close> carries the exit code it was raised with,
  \<open>None\<close> when there is none.
\<close>

datatype exn =
  FileNotFoundError | ValueError | IndexError | ZeroDivisionError | OverflowError | TypeError
| SystemExit "nat option"

subsection \<open>Library string operations used by the parser\<close>

text \<open>
  \<^verbatim>\<open>str.isspace\<close> on one character, for code points below 256: TAB, LF, VT, FF, CR, the four
  separators FS, GS, RS, US, the space, NEL and the no-break space.
\<close>

definition is_space :: "char \<Rightarrow> bool" where
  "is_space c \<longleftrightarrow> c \<in> set [CHR 0x09, CHR 0x0A, CHR 0x0B, CHR 0x0C, CHR 0x0D,
                            CHR 0x1C, CHR 0x1D, CHR 0x1E, CHR 0x1F, CHR 0x20,
                            CHR 0x85, CHR 0xA0]"

text \<open>\<^verbatim>\<open>s.strip()\<close>: leading and trailing whitespace removed.\<close>

definition strip :: "string \<Rightarrow> string" where
  "strip s = rev (dropWhile is_space (rev (dropWhile is_space s)))"

text \<open>\<^verbatim>\<open>s.startswith(p)\<close>.\<close>

definition startswith :: "string \<Rightarrow> string \<Rightarrow> bool" where
  "startswith s p \<longleftrightarrow> take (length p) s = p"

text \<open>
  \<^verbatim>\<open>s.split()\<close> with no separator: the maximal runs of non-whitespace characters, in
  order. \<open>split_from cur s\<close> scans \<open>s\<close> with the token read so far in \<open>cur\<close>.
\<close>

fun split_from :: "string \<Rightarrow> string \<Rightarrow> string list" where
  "split_from cur [] = (if cur = [] then [] else [cur])"
| "split_from cur (c # cs) =
     (if is_space c then (if cur = [] then split_from [] cs else cur # split_from [] cs)
      else split_from (cur @ [c]) cs)"

definition split_ws :: "string \<Rightarrow> string list" where
  "split_ws s = split_from [] s"

text \<open>\<^verbatim>\<open>xs[-1]\<close>: the last element, IndexError on an empty list.\<close>

definition last_item :: "'a list \<Rightarrow> exn + 'a" where
  "last_item xs = (if xs = [] then Inl IndexError else Inr (last xs))"

text \<open>
  \<^verbatim>\<open>int(s)\<close> on a string, base 10. The whitespace it drops on both sides is not that of
  \<^verbatim>\<open>str.strip\<close>: below code point 127 it is TAB, LF, VT, FF, CR and the space only (the
  separators FS, GS, RS, US are not dropped), above it NEL and the no-break space. Then
  come an optional sign and decimal digits, where a single underscore may stand between
  two digits. Anything else raises ValueError, and so does a literal of more than
  \<open>int_max_str_digits\<close> digits (4300, the default of CPython from 3.11 on; leading zeros
  count, underscores do not).
\<close>

definition is_int_space :: "char \<Rightarrow> bool" where
  "is_int_space c \<longleftrightarrow> c \<in> set [CHR 0x09, CHR 0x0A, CHR 0x0B, CHR 0x0C, CHR 0x0D, CHR 0x20,
                                CHR 0x85, CHR 0xA0]"

definition int_strip :: "string \<Rightarrow> string" where
  "int_strip s = rev (dropWhile is_int_space (rev (dropWhile is_int_space s)))"

definition int_max_str_digits :: nat where
  "int_max_str_digits = 4300"

definition is_digit :: "char \<Rightarrow> bool" where
  "is_digit c \<longleftrightarrow> (48::nat) \<le> of_char c \<and> (of_char c :: nat) \<le> 57"

definition digit_val :: "char \<Rightarrow> nat" where
  "digit_val c = of_char c - 48"

fun int_digits :: "nat \<Rightarrow> string \<Rightarrow> nat option" where
  "int_digits acc [] = Some acc"
| "int_digits acc [c] = (if is_digit c then Some (10 * acc + digit_val c) else None)"
| "int_digits acc (c # d # ds) =
     (if is_digit c then int_digits (10 * acc + digit_val c) (d # ds)
      else if c = CHR ''_'' \<and> is_digit d then int_digits (10 * acc + digit_val d) ds
      else None)"

definition unsigned_int :: "string \<Rightarrow> nat option" where
  "unsigned_int s =
     (case s of [] \<Rightarrow> None
      | d # ds \<Rightarrow> if is_digit d then int_digits (digit_val d) ds else None)"

definition py_int :: "string \<Rightarrow> exn + int" where
  "py_int s =
     (let t = int_strip s;
          (neg, body) = (case t of [] \<Rightarrow> (False, t)
                         | c # cs \<Rightarrow> if c = CHR ''-'' then (True, cs)
                                    else if c = CHR ''+'' then (False, cs)
                                    else (False, t))
      in case unsigned_int body of
           None \<Rightarrow> Inl ValueError
         | Some n \<Rightarrow>
             if int_max_str_digits < length (filter is_digit body) then Inl ValueError
             else Inr (if neg then - int n else int n))"

text \<open>\<^verbatim>\<open>str(n)\<close> for a length, as an f-string prints it.\<close>

definition digit_char :: "nat \<Rightarrow> char" where
  "digit_char d = ''0123456789'' ! d"

function str_nat :: "nat \<Rightarrow> string" where
  "str_nat n = (if n < 10 then [digit_char n] else str_nat (n div 10) @ [digit_char (n mod 10)])"
  by pat_completeness auto
termination
  by (relation "measure id") auto

declare str_nat.simps [simp del]

subsection \<open>Conversion of an integer to a float\<close>

text \<open>
  \<open>bit_length n\<close> is the number of bits of \<open>n\<close>. \<open>round53 x\<close> is the integer nearest to \<open>x\<close>
  among those with at most 53 significant bits, a tie going to the one whose 53-bit
  significand is even: the value of \<open>x\<close> as a \<^verbatim>\<open>float64\<close>, as the C conversion of a 64-bit
  integer and Python's \<^verbatim>\<open>float(x)\<close> both compute it. \<open>py_float\<close> is Python's conversion
  of an \<^verbatim>\<open>int\<close>, which raises OverflowError when the rounded value reaches \<open>2 ^ 1024\<close>.
\<close>

function bit_length :: "nat \<Rightarrow> nat" where
  "bit_length n = (if n = 0 then 0 else Suc (bit_length (n div 2)))"
  by pat_completeness auto
termination
  by (relation "measure id") auto

declare bit_length.simps [simp del]

definition round53 :: "int \<Rightarrow> int" where
  "round53 x =
     (let a = nat \<bar>x\<bar>; b = bit_length a in
      if b \<le> 53 then x
      else let e = b - 53;
               q = a div 2 ^ e;
               r = a mod 2 ^ e;
               h = 2 ^ (e - 1);
               q' = (if h < r \<or> (r = h \<and> odd q) then q + 1 else q)
           in sgn x * int (q' * 2 ^ e))"

definition py_float :: "int \<Rightarrow> exn + real" where
  "py_float x =
     (if 2 ^ 1024 \<le> \<bar>round53 x\<bar> then Inl OverflowError else Inr (real_of_int (round53 x)))"

subsection \<open>Arrays\<close>

text \<open>
  \<^verbatim>\<open>np.array(xs)\<close> on a list of Python integers. An empty list gives an empty \<^verbatim>\<open>float64\<close>
  array. Otherwise each element is given the first type that holds it, \<^verbatim>\<open>int64\<close>, then
  \<^verbatim>\<open>uint64\<close>, then \<^verbatim>\<open>object\<close>, and the array takes the common type: \<^verbatim>\<open>object\<close> if any
  element needs it, else \<^verbatim>\<open>int64\<close> or \<^verbatim>\<open>uint64\<close> if all elements agree, else \<^verbatim>\<open>float64\<close>;
  then the elements are converted, which rounds them.
\<close>

datatype ndarray =
  Int64_array "int list" | UInt64_array "int list" | Float64_array "real list"
| Object_array "int list"

definition in_int64 :: "int \<Rightarrow> bool" where
  "in_int64 v \<longleftrightarrow> - (2 ^ 63) \<le> v \<and> v < 2 ^ 63"

definition in_uint64_only :: "int \<Rightarrow> bool" where
  "in_uint64_only v \<longleftrightarrow> 2 ^ 63 \<le> v \<and> v < 2 ^ 64"

definition np_array :: "int list \<Rightarrow> ndarray" where
  "np_array xs =
     (if xs = [] then Float64_array []
      else if list_all in_int64 xs then Int64_array xs
      else if list_all in_uint64_only xs then UInt64_array xs
      else if list_all (\<lambda>v. in_int64 v \<or> in_uint64_only v) xs
           then Float64_array (map (\<lambda>v. real_of_int (round53 v)) xs)
      else Object_array xs)"

text \<open>\<^verbatim>\<open>len(a)\<close>, and the exact value of each element of an array.\<close>

fun elements :: "ndarray \<Rightarrow> real list" where
  "elements (Int64_array xs) = map real_of_int xs"
| "elements (UInt64_array xs) = map real_of_int xs"
| "elements (Float64_array xs) = xs"
| "elements (Object_array xs) = map real_of_int xs"

definition len :: "ndarray \<Rightarrow> nat" where
  "len a = length (elements a)"

text \<open>
  The arrays that the division by the normalization factor yields, and that the plotters
  are given: a \<^verbatim>\<open>float64\<close> array, or an \<^verbatim>\<open>object\<close> array of Python floats.
\<close>

datatype signal = Float_signal "real list" | Object_signal "real list"

fun samples :: "signal \<Rightarrow> real list" where
  "samples (Float_signal xs) = xs"
| "samples (Object_signal xs) = xs"

definition len_signal :: "signal \<Rightarrow> nat" where
  "len_signal s = length (samples s)"

text \<open>The slice \<^verbatim>\<open>s[:n]\<close>.\<close>

fun slice_to :: "nat \<Rightarrow> signal \<Rightarrow> signal" where
  "slice_to n (Float_signal xs) = Float_signal (take n xs)"
| "slice_to n (Object_signal xs) = Object_signal (take n xs)"

text \<open>
  The product \<^verbatim>\<open>s * w\<close> of a signal and a \<^verbatim>\<open>float64\<close> array of the same length; the
  result has the element type of the signal.
\<close>

fun times_array :: "signal \<Rightarrow> real list \<Rightarrow> signal" where
  "times_array (Float_signal xs) w = Float_signal (map2 (*) xs w)"
| "times_array (Object_signal xs) w = Object_signal (map2 (*) xs w)"

subsection \<open>Configuration\<close>

definition FILENAME :: string where
  "FILENAME = ''resampler_output.txt''"

definition FS_IN :: real where
  "FS_IN = 9000000"

definition L :: real where
  "L = 2"

definition M :: real where
  "M = 3"

definition FS_MID :: real where
  "FS_MID = FS_IN * L"

definition FS_OUT :: real where
  "FS_OUT = FS_MID / M"

definition NORM_FACTOR :: real where
  "NORM_FACTOR = 30000"

subsection \<open>\<^verbatim>\<open>parse_file\<close>\<close>

text \<open>
  The file system maps a name to the lines of the file of that name, if there is one;
  \<^verbatim>\<open>open\<close> raises FileNotFoundError otherwise.
\<close>

type_synonym filesystem = "string \<Rightarrow> string list option"

definition open_file :: "filesystem \<Rightarrow> string \<Rightarrow> exn + string list" where
  "open_file fs filename =
     (case fs filename of None \<Rightarrow> Inl FileNotFoundError | Some ls \<Rightarrow> Inr ls)"

text \<open>\<^verbatim>\<open>int(line.split()[-1])\<close> on a stripped line.\<close>

definition line_value :: "string \<Rightarrow> exn + int" where
  "line_value line =
     (case last_item (split_ws line) of Inl e \<Rightarrow> Inl e | Inr tok \<Rightarrow> py_int tok)"

type_synonym lists = "int list \<times> int list \<times> int list"

type_synonym streams = "ndarray \<times> ndarray \<times> ndarray"

text \<open>
  One pass of the loop body: strip the line, test the three prefixes in the order of the
  \<^verbatim>\<open>if\<close>/\<^verbatim>\<open>elif\<close> chain, append the value to the matching list.
\<close>

definition parse_line :: "lists \<Rightarrow> string \<Rightarrow> exn + lists" where
  "parse_line acc raw_line =
     (case acc of (data_in, data_mid, data_out) \<Rightarrow>
        let line = strip raw_line in
        if startswith line ''IN:'' then
          (case line_value line of Inl e \<Rightarrow> Inl e
           | Inr val \<Rightarrow> Inr (data_in @ [val], data_mid, data_out))
        else if startswith line ''MID:'' then
          (case line_value line of Inl e \<Rightarrow> Inl e
           | Inr val \<Rightarrow> Inr (data_in, data_mid @ [val], data_out))
        else if startswith line ''OUT:'' then
          (case line_value line of Inl e \<Rightarrow> Inl e
           | Inr val \<Rightarrow> Inr (data_in, data_mid, data_out @ [val]))
        else Inr acc)"

text \<open>The loop over the lines: the first exception ends it.\<close>

fun parse_lines :: "lists \<Rightarrow> string list \<Rightarrow> exn + lists" where
  "parse_lines acc [] = Inr acc"
| "parse_lines acc (l # ls) =
     (case parse_line acc l of Inl e \<Rightarrow> Inl e | Inr acc' \<Rightarrow> parse_lines acc' ls)"

text \<open>
  \<^verbatim>\<open>parse_file\<close> returns the lines it printed together with its result. The \<^verbatim>\<open>try\<close> block
  holds both \<^verbatim>\<open>open\<close> and the loop; its only handler is for FileNotFoundError, where it
  prints a message and calls \<^verbatim>\<open>exit()\<close>, which raises SystemExit with no exit code. Every
  other exception leaves the function as it is. The three lists are returned as arrays.
\<close>

definition parse_file :: "filesystem \<Rightarrow> string \<Rightarrow> string list \<times> (exn + streams)" where
  "parse_file fs filename =
     (let out = [''Reading '' @ filename @ ''...''] in
      case (case open_file fs filename of Inl e \<Rightarrow> Inl e
            | Inr ls \<Rightarrow> parse_lines ([], [], []) ls) of
        Inl FileNotFoundError \<Rightarrow>
          (out @ [''Error: Could not find '' @ filename @ ''. Run the simulation first.''],
           Inl (SystemExit None))
      | Inl e \<Rightarrow> (out, Inl e)
      | Inr (data_in, data_mid, data_out) \<Rightarrow>
          (out, Inr (np_array data_in, np_array data_mid, np_array data_out)))"

subsection \<open>Library array operations used by the plotters\<close>

text \<open>\<^verbatim>\<open>np.hamming(M)\<close>: empty below one point, a single 1 for one point.\<close>

definition hamming :: "nat \<Rightarrow> real list" where
  "hamming m =
     (if m < 1 then []
      else if m = 1 then [1]
      else map (\<lambda>k. 0.54 + 0.46 * cos (pi * (1 - real m + 2 * real k) / (real m - 1))) [0..<m])"

text \<open>
  \<^verbatim>\<open>np.fft.fft(a)\<close>: the discrete Fourier transform of \<open>a\<close>, one bin for each point. An
  array with no points is refused with ValueError, an array of objects with TypeError (as
  NumPy 2 does, whose transform has no loop for objects).
\<close>

definition fft :: "signal \<Rightarrow> exn + complex list" where
  "fft a =
     (let n = len_signal a in
      if n < 1 then Inl ValueError
      else case a of
             Object_signal _ \<Rightarrow> Inl TypeError
           | Float_signal xs \<Rightarrow>
               Inr (map (\<lambda>k. \<Sum>j\<leftarrow>[0..<n]. complex_of_real (xs ! j) *
                                            cis (- 2 * pi * real j * real k / real n))
                        [0..<n]))"

text \<open>
  \<^verbatim>\<open>np.fft.fftfreq(n, d)\<close>: the bin numbers \<open>0, \<dots>, (n-1) div 2\<close> followed by
  \<open>-(n div 2), \<dots>, -1\<close>, each multiplied by \<open>1 / (n * d)\<close>, a float division that raises
  ZeroDivisionError when \<open>n * d\<close> is zero.
\<close>

definition fftfreq :: "nat \<Rightarrow> real \<Rightarrow> exn + real list" where
  "fftfreq n d =
     (if real n * d = 0 then Inl ZeroDivisionError
      else let val = 1 / (real n * d);
               N = (n - 1) div 2 + 1
           in Inr (map (\<lambda>i. real_of_int i * val)
                       (map int [0..<N] @ [- (int n div 2)..-1])))"

text \<open>\<^verbatim>\<open>np.max(a)\<close>: ValueError on an array with no element.\<close>

definition np_max :: "real list \<Rightarrow> exn + real" where
  "np_max a = (case a of [] \<Rightarrow> Inl ValueError | x # xs \<Rightarrow> Inr (fold max xs x))"

subsection \<open>Figures\<close>

text \<open>
  A figure is described by the data handed to the \<^verbatim>\<open>plot\<close> call of each of its three axes:
  the ordinates alone in the time domain, abscissae and ordinates in the frequency domain.
  Titles, labels, limits and colours are constants of the script and are left out.
\<close>

datatype figure =
  Time_figure signal signal signal
| Freq_figure "real list \<times> real list" "real list \<times> real list" "real list \<times> real list"

subsection \<open>\<^verbatim>\<open>plot_time_domain\<close>\<close>

definition plot_time_domain :: "signal \<Rightarrow> signal \<Rightarrow> signal \<Rightarrow> figure" where
  "plot_time_domain sig_in sig_mid sig_out = Time_figure sig_in sig_mid sig_out"

subsection \<open>\<^verbatim>\<open>plot_frequency_domain\<close> and its helper \<^verbatim>\<open>get_fft_db\<close>\<close>

definition get_fft_db :: "signal \<Rightarrow> real \<Rightarrow> exn + (real list \<times> real list)" where
  "get_fft_db sig fs =
     (let window = hamming (len_signal sig);
          sig_windowed = times_array sig window
      in case fft sig_windowed of Inl e \<Rightarrow> Inl e
         | Inr fft_val \<Rightarrow>
             if fs = 0 then Inl ZeroDivisionError
             else (case fftfreq (len_signal sig) (1 / fs) of Inl e \<Rightarrow> Inl e
                   | Inr fft_freq \<Rightarrow>
                       let half_n = len_signal sig div 2;
                           fft_val = take half_n fft_val;
                           fft_freq = take half_n fft_freq;
                           mag = map (\<lambda>v. 20 * log 10 (cmod v + 1 / 10 ^ 12)) fft_val
                       in Inr (fft_freq, mag)))"

definition plot_frequency_domain :: "signal \<Rightarrow> signal \<Rightarrow> signal \<Rightarrow> exn + figure" where
  "plot_frequency_domain sig_in sig_mid sig_out =
     (case get_fft_db sig_in FS_IN of Inl e \<Rightarrow> Inl e
      | Inr (f_in, mag_in) \<Rightarrow>
     (case get_fft_db sig_mid FS_MID of Inl e \<Rightarrow> Inl e
      | Inr (f_mid, mag_mid) \<Rightarrow>
     (case get_fft_db sig_out FS_OUT of Inl e \<Rightarrow> Inl e
      | Inr (f_out, mag_out) \<Rightarrow>
     (case np_max mag_in of Inl e \<Rightarrow> Inl e
      | Inr ref_level \<Rightarrow>
          Inr (Freq_figure
                 (map (\<lambda>f. f / 10 ^ 6) f_in, map (\<lambda>m. m - ref_level) mag_in)
                 (map (\<lambda>f. f / 10 ^ 6) f_mid, map (\<lambda>m. m - ref_level) mag_mid)
                 (map (\<lambda>f. f / 10 ^ 6) f_out, map (\<lambda>m. m - ref_level) mag_out))))))"

subsection \<open>Main execution\<close>

text \<open>
  \<^verbatim>\<open>raw / NORM_FACTOR\<close> on an array. The elements of an integer array are converted to
  \<^verbatim>\<open>float64\<close> and divided. On an array of objects the division is Python's, element by
  element from the first: it converts the integer with \<open>py_float\<close>, which can raise
  OverflowError, and the result is an array of objects again.
\<close>

fun divide_objects :: "int list \<Rightarrow> real \<Rightarrow> exn + real list" where
  "divide_objects [] d = Inr []"
| "divide_objects (v # vs) d =
     (case py_float v of Inl e \<Rightarrow> Inl e
      | Inr x \<Rightarrow> (case divide_objects vs d of Inl e \<Rightarrow> Inl e | Inr ys \<Rightarrow> Inr (x / d # ys)))"

fun normalize_stream :: "ndarray \<Rightarrow> exn + signal" where
  "normalize_stream (Int64_array xs) =
     Inr (Float_signal (map (\<lambda>v. real_of_int (round53 v) / NORM_FACTOR) xs))"
| "normalize_stream (UInt64_array xs) =
     Inr (Float_signal (map (\<lambda>v. real_of_int (round53 v) / NORM_FACTOR) xs))"
| "normalize_stream (Float64_array xs) = Inr (Float_signal (map (\<lambda>v. v / NORM_FACTOR) xs))"
| "normalize_stream (Object_array xs) =
     (case divide_objects xs NORM_FACTOR of Inl e \<Rightarrow> Inl e | Inr ys \<Rightarrow> Inr (Object_signal ys))"

text \<open>
  What a run of the script leaves behind: the lines printed, the calls made to the two
  plotters and to \<^verbatim>\<open>plt.show\<close> with their arguments, the figures built, and the exception
  that ended the run, if one did.
\<close>

datatype call =
  Plot_time_domain signal signal signal
| Plot_frequency_domain signal signal signal
| Show

record outcome =
  stdout :: "string list"
  calls :: "call list"
  figures :: "figure list"
  raised :: "exn option"

text \<open>
  The exit status of the process: 0 when the script runs to its end, the code of an
  uncaught SystemExit (0 when it has none), 1 for any other uncaught exception, which the
  interpreter reports with a traceback.
\<close>

definition exit_status :: "outcome \<Rightarrow> nat" where
  "exit_status r =
     (case raised r of None \<Rightarrow> 0
      | Some (SystemExit None) \<Rightarrow> 0
      | Some (SystemExit (Some c)) \<Rightarrow> c
      | Some _ \<Rightarrow> 1)"

definition samples_read :: "streams \<Rightarrow> string" where
  "samples_read s =
     (case s of (s_in_raw, s_mid_raw, s_out_raw) \<Rightarrow>
        ''Samples Read -> In: '' @ str_nat (len s_in_raw) @
        '', Mid: '' @ str_nat (len s_mid_raw) @
        '', Out: '' @ str_nat (len s_out_raw))"

definition main :: "filesystem \<Rightarrow> outcome" where
  "main fs =
     (case parse_file fs FILENAME of
        (out, Inl e) \<Rightarrow> \<lparr>stdout = out, calls = [], figures = [], raised = Some e\<rparr>
      | (out, Inr (s_in_raw, s_mid_raw, s_out_raw)) \<Rightarrow>
          let out = out @ [samples_read (s_in_raw, s_mid_raw, s_out_raw)] in
          if len s_in_raw > 0 then
           (let out = out @ [''Normalizing all signals by Fixed Factor: 30000.0''] in
            (case normalize_stream s_in_raw of
               Inl e \<Rightarrow> \<lparr>stdout = out, calls = [], figures = [], raised = Some e\<rparr>
             | Inr s_in \<Rightarrow>
            (case normalize_stream s_mid_raw of
               Inl e \<Rightarrow> \<lparr>stdout = out, calls = [], figures = [], raised = Some e\<rparr>
             | Inr s_mid \<Rightarrow>
            (case normalize_stream s_out_raw of
               Inl e \<Rightarrow> \<lparr>stdout = out, calls = [], figures = [], raised = Some e\<rparr>
             | Inr s_out \<Rightarrow>
                 let fig1 = plot_time_domain (slice_to 200 s_in) (slice_to 400 s_mid)
                              (slice_to 150 s_out);
                     cs = [Plot_time_domain (slice_to 200 s_in) (slice_to 400 s_mid)
                             (slice_to 150 s_out),
                           Plot_frequency_domain s_in s_mid s_out]
                 in (case plot_frequency_domain s_in s_mid s_out of
                       Inl e \<Rightarrow> \<lparr>stdout = out, calls = cs, figures = [fig1], raised = Some e\<rparr>
                     | Inr fig2 \<Rightarrow>
                         \<lparr>stdout = out, calls = cs @ [Show], figures = [fig1, fig2],
                          raised = None\<rparr>)))))
          else \<lparr>stdout = out, calls = [], figures = [], raised = None\<rparr>)"

subsection \<open>Vocabulary of the properties\<close>

text \<open>
  A line is \<open>prefixed\<close> when its stripped text begins with one of the three literal
  prefixes; \<open>token_int\<close> is the integer conversion of the last whitespace-separated token
  of its stripped text.
\<close>

definition prefixed :: "string \<Rightarrow> bool" where
  "prefixed l \<longleftrightarrow>
     startswith (strip l) ''IN:'' \<or> startswith (strip l) ''MID:'' \<or> startswith (strip l) ''OUT:''"

definition token_int :: "string \<Rightarrow> exn + int" where
  "token_int l = py_int (last (split_ws (strip l)))"

text \<open>
  A list of integers is of \<open>mixed_width\<close> when it holds a value of the \<^verbatim>\<open>int64\<close> range and a
  value that only \<^verbatim>\<open>uint64\<close> holds, and none beyond both: the lists that \<^verbatim>\<open>np.array\<close>
  turns into rounded floats.
\<close>

definition mixed_width :: "int list \<Rightarrow> bool" where
  "mixed_width xs \<longleftrightarrow>
     list_ex in_int64 xs \<and> list_ex in_uint64_only xs
     \<and> list_all (\<lambda>v. in_int64 v \<or> in_uint64_only v) xs"

text \<open>The elements of an array as the floats that the division works on.\<close>

fun float_elements :: "ndarray \<Rightarrow> real list" where
  "float_elements (Int64_array xs) = map (\<lambda>v. real_of_int (round53 v)) xs"
| "float_elements (UInt64_array xs) = map (\<lambda>v. real_of_int (round53 v)) xs"
| "float_elements (Float64_array xs) = xs"
| "float_elements (Object_array xs) = map (\<lambda>v. real_of_int (round53 v)) xs"

text \<open>
  An array is \<open>convertible\<close> when the division by the normalization factor can convert each
  of its elements to a float: always, except for an array of objects that holds an integer
  beyond the range of the floats.
\<close>

fun convertible :: "ndarray \<Rightarrow> bool" where
  "convertible (Object_array xs) = list_all (\<lambda>v. \<bar>round53 v\<bar> < 2 ^ 1024) xs"
| "convertible (Int64_array xs) = True"
| "convertible (UInt64_array xs) = True"
| "convertible (Float64_array xs) = True"

text \<open>File systems for concrete runs: no file at all, and one file with given lines.\<close>

definition no_files :: filesystem where
  "no_files = (\<lambda>name. None)"

definition one_file :: "string \<Rightarrow> string list \<Rightarrow> filesystem" where
  "one_file name ls = (\<lambda>n. if n = name then Some ls else None)"

section \<open>Properties of the parser\<close>

text \<open>
  A stripped line that begins with one of the prefixes holds a colon, so it has a last
  token and \<^verbatim>\<open>[-1]\<close> cannot raise: the only failure of the loop body is the ValueError of
  the integer conversion.
\<close>

lemma split_from_nonempty:
  "cur \<noteq> [] \<or> (\<exists>c\<in>set s. \<not> is_space c) \<Longrightarrow> split_from cur s \<noteq> []"
  by (induction s arbitrary: cur) auto

lemma startswith_set: "startswith line p \<Longrightarrow> set p \<subseteq> set line"
  unfolding startswith_def by (metis set_take_subset)

lemma colon_not_space: "\<not> is_space CHR '':''"
  by (simp add: is_space_def)

lemma split_ws_prefixed:
  assumes "startswith line p" and "CHR '':'' \<in> set p"
  shows "split_ws line \<noteq> []"
proof -
  from assms have "CHR '':'' \<in> set line"
    using startswith_set by blast
  then have "\<exists>c\<in>set line. \<not> is_space c"
    using colon_not_space by blast
  then show ?thesis
    unfolding split_ws_def by (simp add: split_from_nonempty)
qed

lemma line_value_prefixed:
  assumes "startswith line p" and "CHR '':'' \<in> set p"
  shows "line_value line = py_int (last (split_ws line))"
  using split_ws_prefixed [OF assms] by (simp add: line_value_def last_item_def)

lemma py_int_error: "py_int s = Inl e \<Longrightarrow> e = ValueError"
  by (auto simp: py_int_def Let_def split: option.splits prod.splits if_splits)

lemma startswith_IN_not_MID: "startswith l ''IN:'' \<Longrightarrow> \<not> startswith l ''MID:''"
  by (cases l) (auto simp: startswith_def)

lemma startswith_IN_not_OUT: "startswith l ''IN:'' \<Longrightarrow> \<not> startswith l ''OUT:''"
  by (cases l) (auto simp: startswith_def)

lemma startswith_MID_not_OUT: "startswith l ''MID:'' \<Longrightarrow> \<not> startswith l ''OUT:''"
  by (cases l) (auto simp: startswith_def)

lemma parse_line_IN:
  assumes "startswith (strip l) ''IN:''"
  shows "parse_line (a, b, c) l =
           (case py_int (last (split_ws (strip l))) of Inl e \<Rightarrow> Inl e
            | Inr v \<Rightarrow> Inr (a @ [v], b, c))"
  using assms by (simp add: parse_line_def line_value_prefixed [OF assms])

lemma parse_line_MID:
  assumes "startswith (strip l) ''MID:''"
  shows "parse_line (a, b, c) l =
           (case py_int (last (split_ws (strip l))) of Inl e \<Rightarrow> Inl e
            | Inr v \<Rightarrow> Inr (a, b @ [v], c))"
proof -
  have "\<not> startswith (strip l) ''IN:''"
    using assms startswith_IN_not_MID by blast
  with assms show ?thesis
    by (simp add: parse_line_def Let_def line_value_prefixed [OF assms])
qed

lemma parse_line_OUT:
  assumes "startswith (strip l) ''OUT:''"
  shows "parse_line (a, b, c) l =
           (case py_int (last (split_ws (strip l))) of Inl e \<Rightarrow> Inl e
            | Inr v \<Rightarrow> Inr (a, b, c @ [v]))"
proof -
  have "\<not> startswith (strip l) ''IN:''" and "\<not> startswith (strip l) ''MID:''"
    using assms startswith_IN_not_OUT startswith_MID_not_OUT by blast+
  with assms show ?thesis
    by (simp add: parse_line_def Let_def line_value_prefixed [OF assms])
qed

lemma parse_line_other:
  assumes "\<not> startswith (strip l) ''IN:''" "\<not> startswith (strip l) ''MID:''"
    "\<not> startswith (strip l) ''OUT:''"
  shows "parse_line (a, b, c) l = Inr (a, b, c)"
  using assms by (simp add: parse_line_def)

lemma parse_lines_wellformed:
  assumes "\<forall>l\<in>set ls. prefixed l \<longrightarrow> (\<exists>v. token_int l = Inr v)"
  shows "\<exists>a' b' c'. parse_lines (a, b, c) ls = Inr (a @ a', b @ b', c @ c')
           \<and> map Inr a' = map token_int (filter (\<lambda>l. startswith (strip l) ''IN:'') ls)
           \<and> map Inr b' = map token_int (filter (\<lambda>l. startswith (strip l) ''MID:'') ls)
           \<and> map Inr c' = map token_int (filter (\<lambda>l. startswith (strip l) ''OUT:'') ls)"
  using assms
proof (induction ls arbitrary: a b c)
  case Nil
  then show ?case by simp
next
  case (Cons l ls)
  then have rest: "\<forall>l\<in>set ls. prefixed l \<longrightarrow> (\<exists>v. token_int l = Inr v)"
    by simp
  consider (i) "startswith (strip l) ''IN:''" | (m) "startswith (strip l) ''MID:''"
    | (out) "startswith (strip l) ''OUT:''" | (none) "\<not> prefixed l"
    unfolding prefixed_def by blast
  then show ?case
  proof cases
    case i
    with Cons.prems obtain v where v: "token_int l = Inr v"
      by (auto simp: prefixed_def)
    from Cons.IH [OF rest, of "a @ [v]" b c] obtain a' b' c' where
      "parse_lines (a @ [v], b, c) ls = Inr ((a @ [v]) @ a', b @ b', c @ c')"
      "map Inr a' = map token_int (filter (\<lambda>l. startswith (strip l) ''IN:'') ls)"
      "map Inr b' = map token_int (filter (\<lambda>l. startswith (strip l) ''MID:'') ls)"
      "map Inr c' = map token_int (filter (\<lambda>l. startswith (strip l) ''OUT:'') ls)"
      by blast
    with i v show ?thesis
      using startswith_IN_not_MID [OF i] startswith_IN_not_OUT [OF i]
      by (intro exI [of _ "v # a'"] exI [of _ b'] exI [of _ c'])
         (simp add: parse_line_IN [OF i] token_int_def)
  next
    case m
    with Cons.prems obtain v where v: "token_int l = Inr v"
      by (auto simp: prefixed_def)
    from Cons.IH [OF rest, of a "b @ [v]" c] obtain a' b' c' where
      "parse_lines (a, b @ [v], c) ls = Inr (a @ a', (b @ [v]) @ b', c @ c')"
      "map Inr a' = map token_int (filter (\<lambda>l. startswith (strip l) ''IN:'') ls)"
      "map Inr b' = map token_int (filter (\<lambda>l. startswith (strip l) ''MID:'') ls)"
      "map Inr c' = map token_int (filter (\<lambda>l. startswith (strip l) ''OUT:'') ls)"
      by blast
    with m v show ?thesis
      using startswith_IN_not_MID [of "strip l"] startswith_MID_not_OUT [OF m]
      by (intro exI [of _ a'] exI [of _ "v # b'"] exI [of _ c'])
         (auto simp: parse_line_MID [OF m] token_int_def)
  next
    case out
    with Cons.prems obtain v where v: "token_int l = Inr v"
      by (auto simp: prefixed_def)
    from Cons.IH [OF rest, of a b "c @ [v]"] obtain a' b' c' where
      "parse_lines (a, b, c @ [v]) ls = Inr (a @ a', b @ b', (c @ [v]) @ c')"
      "map Inr a' = map token_int (filter (\<lambda>l. startswith (strip l) ''IN:'') ls)"
      "map Inr b' = map token_int (filter (\<lambda>l. startswith (strip l) ''MID:'') ls)"
      "map Inr c' = map token_int (filter (\<lambda>l. startswith (strip l) ''OUT:'') ls)"
      by blast
    with out v show ?thesis
      using startswith_IN_not_OUT [of "strip l"] startswith_MID_not_OUT [of "strip l"]
      by (intro exI [of _ a'] exI [of _ b'] exI [of _ "v # c'"])
         (auto simp: parse_line_OUT [OF out] token_int_def)
  next
    case none
    then have n: "\<not> startswith (strip l) ''IN:''" "\<not> startswith (strip l) ''MID:''"
      "\<not> startswith (strip l) ''OUT:''"
      by (simp_all add: prefixed_def)
    from Cons.IH [OF rest, of a b c] n show ?thesis
      by (simp add: parse_line_other [OF n])
  qed
qed

lemma parse_lines_malformed:
  assumes "l \<in> set ls" and "prefixed l" and "token_int l = Inl e"
  shows "parse_lines acc ls = Inl ValueError"
  using assms
proof (induction ls arbitrary: acc)
  case Nil
  then show ?case by simp
next
  case (Cons x xs)
  obtain a b c where acc: "acc = (a, b, c)"
    by (cases acc) auto
  show ?case
  proof (cases "parse_line acc x")
    case (Inl e')
    have "e' = ValueError"
    proof (cases "prefixed x")
      case True
      then consider (i) "startswith (strip x) ''IN:''" | (m) "startswith (strip x) ''MID:''"
        | (out) "startswith (strip x) ''OUT:''"
        unfolding prefixed_def by blast
      then show ?thesis
      proof cases
        case i
        with Inl show ?thesis
          by (auto simp: acc parse_line_IN [OF i] split: sum.splits dest: py_int_error)
      next
        case m
        with Inl show ?thesis
          by (auto simp: acc parse_line_MID [OF m] split: sum.splits dest: py_int_error)
      next
        case out
        with Inl show ?thesis
          by (auto simp: acc parse_line_OUT [OF out] split: sum.splits dest: py_int_error)
      qed
    next
      case False
      with Inl show ?thesis
        by (simp add: acc parse_line_other prefixed_def)
    qed
    with Inl show ?thesis by simp
  next
    case (Inr acc')
    have "x \<noteq> l"
    proof
      assume "x = l"
      with Cons.prems consider (i) "startswith (strip x) ''IN:''"
        | (m) "startswith (strip x) ''MID:''" | (out) "startswith (strip x) ''OUT:''"
        unfolding prefixed_def by blast
      then show False
      proof cases
        case i
        from parse_line_IN [OF i, of a b c] Inr Cons.prems(3) \<open>x = l\<close> show False
          by (simp add: acc token_int_def)
      next
        case m
        from parse_line_MID [OF m, of a b c] Inr Cons.prems(3) \<open>x = l\<close> show False
          by (simp add: acc token_int_def)
      next
        case out
        from parse_line_OUT [OF out, of a b c] Inr Cons.prems(3) \<open>x = l\<close> show False
          by (simp add: acc token_int_def)
      qed
    qed
    with Cons.prems have "l \<in> set xs" by simp
    from Cons.IH [OF this Cons.prems(2,3)] Inr show ?thesis by simp
  qed
qed

text \<open>Unfolding sets for running the parser on concrete lines.\<close>

lemmas string_eval = strip_def is_space_def startswith_def split_ws_def last_item_def
  py_int_def int_strip_def is_int_space_def int_max_str_digits_def unsigned_int_def
  is_digit_def digit_val_def

lemmas parse_eval = parse_file_def open_file_def one_file_def no_files_def FILENAME_def
  parse_line_def line_value_def prefixed_def token_int_def

text \<open>Unfolding sets for the conversion of concrete integers to arrays and to floats.\<close>

lemmas round_eval = round53_def bit_length.simps Let_def

lemmas array_eval = np_array_def in_int64_def in_uint64_only_def

text \<open>The limit on the digits of a literal, and the whitespace of \<^verbatim>\<open>int()\<close>, at work.\<close>

lemma py_int_digit_limit:
  assumes "int_max_str_digits < length (filter is_digit (int_strip s))"
  shows "py_int s = Inl ValueError"
proof -
  have sign: "\<not> is_digit CHR ''-''" "\<not> is_digit CHR ''+''"
    by (simp_all add: is_digit_def)
  show ?thesis
  proof (cases "int_strip s")
    case Nil
    then show ?thesis
      by (simp add: py_int_def unsigned_int_def)
  next
    case (Cons c cs)
    with assms sign show ?thesis
      by (auto simp: py_int_def Let_def split: option.splits)
  qed
qed

lemma py_int_examples:
  "py_int (replicate 4301 CHR ''1'') = Inl ValueError"
  "py_int (CHR 0x1F # ''9'') = Inl ValueError"
  "py_int (CHR 0x0B # ''9 '') = Inr 9"
  "py_int ''-1_000'' = Inr (- 1000)"
proof -
  have "\<not> is_int_space CHR ''1''" and "is_digit CHR ''1''"
    by (simp_all add: is_int_space_def is_digit_def)
  then have "int_max_str_digits < length (filter is_digit (int_strip (replicate 4301 CHR ''1'')))"
    by (simp add: int_strip_def int_max_str_digits_def)
  then show "py_int (replicate 4301 CHR ''1'') = Inl ValueError"
    by (rule py_int_digit_limit)
  show "py_int (CHR 0x1F # ''9'') = Inl ValueError" "py_int (CHR 0x0B # ''9 '') = Inr 9"
    "py_int ''-1_000'' = Inr (- 1000)"
    by (simp_all add: string_eval)
qed

lemma parse_file_wellformed:
  assumes "fs filename = Some ls" and "parse_lines ([], [], []) ls = Inr (a, b, c)"
  shows "parse_file fs filename =
           ([''Reading '' @ filename @ ''...''], Inr (np_array a, np_array b, np_array c))"
  using assms by (simp add: parse_file_def open_file_def)

lemma parse_file_malformed:
  assumes "fs filename = Some ls" and "parse_lines ([], [], []) ls = Inl ValueError"
  shows "parse_file fs filename = ([''Reading '' @ filename @ ''...''], Inl ValueError)"
  using assms by (simp add: parse_file_def open_file_def)

lemma parse_file_missing:
  assumes "fs filename = None"
  shows "parse_file fs filename =
           ([''Reading '' @ filename @ ''...'',
             ''Error: Could not find '' @ filename @ ''. Run the simulation first.''],
            Inl (SystemExit None))"
  using assms by (simp add: parse_file_def open_file_def)

lemma parse_file_Inr:
  assumes "snd (parse_file fs filename) = Inr r"
  shows "\<exists>ls a b c. fs filename = Some ls \<and> parse_lines ([], [], []) ls = Inr (a, b, c)
           \<and> r = (np_array a, np_array b, np_array c)"
  using assms
  by (auto simp: parse_file_def open_file_def Let_def
           split: option.splits sum.splits exn.splits prod.splits)

lemma parse_file_returned:
  assumes "snd (parse_file fs filename) = Inr r"
  shows "parse_file fs filename = ([''Reading '' @ filename @ ''...''], Inr r)"
proof -
  from parse_file_Inr [OF assms] obtain ls a b c where "fs filename = Some ls"
    and "parse_lines ([], [], []) ls = Inr (a, b, c)"
    and r: "r = (np_array a, np_array b, np_array c)"
    by blast
  then show ?thesis
    using parse_file_wellformed [of fs filename ls a b c] by simp
qed

text \<open>What \<^verbatim>\<open>np.array\<close> keeps of a list: always its length, and its values unless it rounds.\<close>

lemma len_np_array: "len (np_array xs) = length xs"
  by (simp add: len_def np_array_def)

lemma np_array_mixed:
  assumes "mixed_width xs"
  shows "np_array xs = Float64_array (map (\<lambda>v. real_of_int (round53 v)) xs)"
proof -
  from assms obtain u v where u: "u \<in> set xs" "in_int64 u" and v: "v \<in> set xs" "in_uint64_only v"
    and all: "list_all (\<lambda>v. in_int64 v \<or> in_uint64_only v) xs"
    by (auto simp: mixed_width_def list_ex_iff)
  have "\<not> in_int64 v" and "\<not> in_uint64_only u"
    using u(2) v(2) by (auto simp: in_int64_def in_uint64_only_def)
  then have "\<not> list_all in_int64 xs" and "\<not> list_all in_uint64_only xs"
    using u(1) v(1) by (auto simp: list_all_iff)
  moreover have "xs \<noteq> []"
    using u(1) by auto
  ultimately show ?thesis
    using all by (simp add: np_array_def)
qed

lemma np_array_exact:
  assumes "\<not> mixed_width xs"
  shows "np_array xs \<in> {Int64_array xs, UInt64_array xs, Object_array xs, Float64_array []}"
proof (cases "xs = []")
  case True
  then show ?thesis by (simp add: np_array_def)
next
  case False
  show ?thesis
  proof (cases "list_all in_int64 xs \<or> list_all in_uint64_only xs")
    case True
    with False show ?thesis by (auto simp: np_array_def)
  next
    case no: False
    have "\<not> list_all (\<lambda>v. in_int64 v \<or> in_uint64_only v) xs"
    proof
      assume all: "list_all (\<lambda>v. in_int64 v \<or> in_uint64_only v) xs"
      from no obtain u v where "u \<in> set xs" "\<not> in_int64 u" "v \<in> set xs" "\<not> in_uint64_only v"
        by (auto simp: list_all_iff)
      with all have "list_ex in_uint64_only xs" and "list_ex in_int64 xs"
        by (auto simp: list_all_iff list_ex_iff)
      with all assms show False
        by (simp add: mixed_width_def)
    qed
    with no False show ?thesis by (simp add: np_array_def)
  qed
qed

lemma elements_np_array_exact:
  assumes "\<not> mixed_width xs"
  shows "elements (np_array xs) = map real_of_int xs"
proof (cases "xs = []")
  case True
  then show ?thesis by (simp add: np_array_def)
next
  case False
  with np_array_exact [OF assms] show ?thesis
    by (auto simp: np_array_def split: if_splits)
qed

lemma nth_map_eq:
  assumes "map f xs = map g ys"
  shows "\<forall>n<length xs. f (xs ! n) = g (ys ! n)"
proof (intro allI impI)
  fix n assume n: "n < length xs"
  have "length xs = length ys"
    using arg_cong [OF assms, of length] by simp
  with n have "map f xs ! n = f (xs ! n)" and "map g ys ! n = g (ys ! n)"
    by simp_all
  with assms show "f (xs ! n) = g (ys ! n)"
    by simp
qed

lemma stream_of_lines:
  assumes "map Inr xs = map token_int ys"
  shows "len (np_array xs) = length ys
       \<and> (\<forall>n<length xs. Inr (xs ! n) = token_int (ys ! n))
       \<and> (\<not> mixed_width xs \<longrightarrow>
            np_array xs \<in> {Int64_array xs, UInt64_array xs, Object_array xs, Float64_array []}
          \<and> elements (np_array xs) = map real_of_int xs)
       \<and> (mixed_width xs \<longrightarrow>
            np_array xs = Float64_array (map (\<lambda>v. real_of_int (round53 v)) xs))"
proof -
  have "length xs = length ys"
    using arg_cong [OF assms, of length] by simp
  then have "len (np_array xs) = length ys"
    by (simp add: len_np_array)
  moreover have "\<forall>n<length xs. Inr (xs ! n) = token_int (ys ! n)"
    using nth_map_eq [OF assms] .
  ultimately show ?thesis
    using np_array_exact [of xs] elements_np_array_exact [of xs] np_array_mixed [of xs]
    by blast
qed

text \<open>
  Claim C1, amended. For every file that exists and in which \<^verbatim>\<open>int()\<close> accepts the last
  whitespace-separated token of every prefixed line, \<^verbatim>\<open>parse_file\<close> returns three arrays,
  built from the three lists that hold, in file order, the integers converted from the
  last tokens of the stripped lines that begin with each prefix, and from nothing else.
  The length of each array is the number of lines with its prefix, and the \<open>n\<close>th integer of
  a list comes from the \<open>n\<close>th such line. An array holds exactly the integers of its list
  (as \<^verbatim>\<open>int64\<close>, \<^verbatim>\<open>uint64\<close> or Python integers), unless the list is of mixed width: then it
  is an array of floats and holds the integers rounded to 53 bits.
\<close>

theorem parse_file_streams:
  assumes "fs filename = Some ls"
    and "\<forall>l\<in>set ls. prefixed l \<longrightarrow> (\<exists>v. token_int l = Inr v)"
  shows "\<exists>data_in data_mid data_out.
           snd (parse_file fs filename) =
             Inr (np_array data_in, np_array data_mid, np_array data_out)
         \<and> map Inr data_in = map token_int (filter (\<lambda>l. startswith (strip l) ''IN:'') ls)
         \<and> map Inr data_mid = map token_int (filter (\<lambda>l. startswith (strip l) ''MID:'') ls)
         \<and> map Inr data_out = map token_int (filter (\<lambda>l. startswith (strip l) ''OUT:'') ls)
         \<and> len (np_array data_in) = length (filter (\<lambda>l. startswith (strip l) ''IN:'') ls)
         \<and> len (np_array data_mid) = length (filter (\<lambda>l. startswith (strip l) ''MID:'') ls)
         \<and> len (np_array data_out) = length (filter (\<lambda>l. startswith (strip l) ''OUT:'') ls)
         \<and> (\<forall>n<length data_in.
                Inr (data_in ! n) = token_int (filter (\<lambda>l. startswith (strip l) ''IN:'') ls ! n))
         \<and> (\<forall>n<length data_mid.
                Inr (data_mid ! n) = token_int (filter (\<lambda>l. startswith (strip l) ''MID:'') ls ! n))
         \<and> (\<forall>n<length data_out.
                Inr (data_out ! n) = token_int (filter (\<lambda>l. startswith (strip l) ''OUT:'') ls ! n))
         \<and> (\<forall>xs\<in>{data_in, data_mid, data_out}.
               (\<not> mixed_width xs \<longrightarrow>
                  np_array xs \<in> {Int64_array xs, UInt64_array xs, Object_array xs, Float64_array []}
                \<and> elements (np_array xs) = map real_of_int xs)
             \<and> (mixed_width xs \<longrightarrow>
                  np_array xs = Float64_array (map (\<lambda>v. real_of_int (round53 v)) xs)))"
proof -
  from parse_lines_wellformed [OF assms(2), of "[]" "[]" "[]"]
  obtain a b c where r: "parse_lines ([], [], []) ls = Inr (a, b, c)"
    and a: "map Inr a = map token_int (filter (\<lambda>l. startswith (strip l) ''IN:'') ls)"
    and b: "map Inr b = map token_int (filter (\<lambda>l. startswith (strip l) ''MID:'') ls)"
    and c: "map Inr c = map token_int (filter (\<lambda>l. startswith (strip l) ''OUT:'') ls)"
    by auto
  have "snd (parse_file fs filename) = Inr (np_array a, np_array b, np_array c)"
    using parse_file_wellformed [of fs filename ls a b c, OF assms(1) r] by simp
  with a b c stream_of_lines [OF a] stream_of_lines [OF b] stream_of_lines [OF c]
  show ?thesis
    by (intro exI [of _ a] exI [of _ b] exI [of _ c]) simp
qed

theorem parse_file_streams_witness:
  "token_int ''IN: 7'' = Inr 7 \<and> token_int '' OUT: x -2 '' = Inr (- 2)
   \<and> token_int ''IN: 9223372036854775808'' = Inr 9223372036854775808
   \<and> \<not> prefixed ''GARBAGE: 123''
   \<and> snd (parse_file (one_file FILENAME
             [''IN: 7'', ''GARBAGE: 123'', '' OUT: x -2 '', ''IN: 9223372036854775808''])
          FILENAME) =
       Inr (Float64_array [7, 9223372036854775808], Float64_array [], Int64_array [- 2])"
proof -
  let ?ls = "[''IN: 7'', ''GARBAGE: 123'', '' OUT: x -2 '', ''IN: 9223372036854775808'']"
  have f: "one_file FILENAME ?ls FILENAME = Some ?ls"
    by (simp add: one_file_def)
  have t: "token_int ''IN: 7'' = Inr 7" "token_int '' OUT: x -2 '' = Inr (- 2)"
    "token_int ''IN: 9223372036854775808'' = Inr 9223372036854775808"
    "\<not> prefixed ''GARBAGE: 123''"
    by (simp_all add: prefixed_def token_int_def string_eval)
  then have w: "\<forall>l\<in>set ?ls. prefixed l \<longrightarrow> (\<exists>v. token_int l = Inr v)"
    by simp
  from parse_file_streams [of "one_file FILENAME ?ls" FILENAME ?ls, OF f w]
  obtain a b c where
    "snd (parse_file (one_file FILENAME ?ls) FILENAME) = Inr (np_array a, np_array b, np_array c)"
    and "map Inr a = map token_int (filter (\<lambda>l. startswith (strip l) ''IN:'') ?ls)"
    and "map Inr b = map token_int (filter (\<lambda>l. startswith (strip l) ''MID:'') ?ls)"
    and "map Inr c = map token_int (filter (\<lambda>l. startswith (strip l) ''OUT:'') ?ls)"
    by blast
  then have "snd (parse_file (one_file FILENAME ?ls) FILENAME) =
       Inr (np_array [7, 9223372036854775808], np_array [], np_array [- 2])"
    by (auto simp: token_int_def string_eval)
  then have "snd (parse_file (one_file FILENAME ?ls) FILENAME) =
       Inr (Float64_array [7, 9223372036854775808], Float64_array [], Int64_array [- 2])"
    by (simp add: array_eval round_eval)
  with t show ?thesis
    by blast
qed

text \<open>
  As stated for every input file, claim C1 fails in two ways: on a file whose only line is
  \<^verbatim>\<open>IN: abc\<close> the parser returns nothing, it raises ValueError; and on the two input samples
  \<open>2 ^ 63 - 1\<close> and \<open>2 ^ 63\<close> it returns an array of floats in which the first sample has
  become \<open>2 ^ 63\<close>.
\<close>

theorem parse_file_counterexample:
  "snd (parse_file (one_file FILENAME [''IN: abc'']) FILENAME) = Inl ValueError
   \<and> snd (parse_file (one_file FILENAME
             [''IN: 9223372036854775807'', ''IN: 9223372036854775808'']) FILENAME) =
       Inr (Float64_array [9223372036854775808, 9223372036854775808],
            Float64_array [], Float64_array [])"
  by (simp add: parse_eval string_eval array_eval round_eval)

section \<open>Properties of the run: the parser fails or the input is empty\<close>

text \<open>What \<^verbatim>\<open>main\<close> does with a failure of the parser and with an empty input stream.\<close>

lemma str_nat_digit: "n < 10 \<Longrightarrow> str_nat n = [digit_char n]"
  by (simp add: str_nat.simps)

lemma main_parse_error:
  assumes "parse_file fs FILENAME = (out, Inl e)"
  shows "main fs = \<lparr>stdout = out, calls = [], figures = [], raised = Some e\<rparr>"
  using assms by (simp add: main_def)

lemma main_no_input:
  assumes "parse_file fs FILENAME = (out, Inr (s_in_raw, s_mid_raw, s_out_raw))"
    and "len s_in_raw = 0"
  shows "main fs = \<lparr>stdout = out @ [samples_read (s_in_raw, s_mid_raw, s_out_raw)],
                     calls = [], figures = [], raised = None\<rparr>"
  using assms by (simp add: main_def)

text \<open>
  Claim C2, amended. If the input file does not exist, the run prints the line announcing
  the read and an error line naming the file, and ends at once through \<^verbatim>\<open>exit()\<close>: the
  exception that ends it is SystemExit without a code, so the exit status is 0. No sample
  count is printed and no plotting call is made.
\<close>

theorem missing_file_exit:
  assumes "fs FILENAME = None"
  shows "main fs =
           \<lparr>stdout = [''Reading resampler_output.txt...'',
                       ''Error: Could not find resampler_output.txt. Run the simulation first.''],
            calls = [], figures = [], raised = Some (SystemExit None)\<rparr>
         \<and> exit_status (main fs) = 0"
proof -
  have "main fs =
           \<lparr>stdout = [''Reading '' @ FILENAME @ ''...'',
                       ''Error: Could not find '' @ FILENAME @ ''. Run the simulation first.''],
            calls = [], figures = [], raised = Some (SystemExit None)\<rparr>"
    using main_parse_error [OF parse_file_missing [of fs FILENAME, OF assms]] .
  then show ?thesis
    by (simp add: exit_status_def FILENAME_def)
qed

theorem missing_file_exit_witness:
  "no_files FILENAME = None
   \<and> stdout (main no_files) =
       [''Reading resampler_output.txt...'',
        ''Error: Could not find resampler_output.txt. Run the simulation first.'']
   \<and> calls (main no_files) = []
   \<and> raised (main no_files) = Some (SystemExit None)"
proof -
  have h: "no_files FILENAME = None"
    by (simp add: no_files_def)
  from missing_file_exit [of no_files, OF h] h show ?thesis
    by simp
qed

text \<open>
  As stated, claim C2 asks for a non-zero exit status; with no file at all the status is 0.
\<close>

theorem missing_file_exit_status_counterexample:
  "exit_status (main no_files) = 0"
  by (simp add: main_def parse_file_def open_file_def no_files_def exit_status_def)

text \<open>
  Claim C7. If the file holds a prefixed line whose last token does not convert to an
  integer, the conversion error is a ValueError that no handler catches: it leaves
  \<^verbatim>\<open>parse_file\<close> and ends the run, after the line announcing the read and before any other
  output or plotting call; the interpreter reports it and exits with status 1.
\<close>

theorem malformed_token_propagates:
  assumes "fs FILENAME = Some ls" and "l \<in> set ls" and "prefixed l"
    and "token_int l = Inl e"
  shows "snd (parse_file fs FILENAME) = Inl ValueError
         \<and> main fs = \<lparr>stdout = [''Reading resampler_output.txt...''],
                        calls = [], figures = [], raised = Some ValueError\<rparr>
         \<and> exit_status (main fs) = 1"
proof -
  have "parse_lines ([], [], []) ls = Inl ValueError"
    using parse_lines_malformed [OF assms(2,3,4)] .
  from parse_file_malformed [of fs FILENAME ls, OF assms(1) this]
  have p: "parse_file fs FILENAME = ([''Reading '' @ FILENAME @ ''...''], Inl ValueError)" .
  from main_parse_error [OF p] p show ?thesis
    by (simp add: exit_status_def FILENAME_def)
qed

theorem malformed_token_propagates_witness:
  "main (one_file FILENAME [''IN: 1'', ''MID: 2.5'', ''OUT: 3'']) =
     \<lparr>stdout = [''Reading resampler_output.txt...''],
      calls = [], figures = [], raised = Some ValueError\<rparr>"
proof -
  let ?ls = "[''IN: 1'', ''MID: 2.5'', ''OUT: 3'']"
  have f: "one_file FILENAME ?ls FILENAME = Some ?ls"
    by (simp add: one_file_def)
  have m: "''MID: 2.5'' \<in> set ?ls"
    by simp
  have p: "prefixed ''MID: 2.5''"
    by (simp add: prefixed_def string_eval)
  have t: "token_int ''MID: 2.5'' = Inl ValueError"
    by (simp add: token_int_def string_eval)
  from malformed_token_propagates [of "one_file FILENAME ?ls" ?ls, OF f m p t] show ?thesis
    by simp
qed

text \<open>
  Claim C3. If the parsed input stream is empty, whatever the other two streams hold, the
  run prints the line announcing the read and the line of the three sample counts, makes
  no plotting call, builds no figure, raises nothing and ends with status 0. For a file
  with no line the three streams are empty and the counts printed are 0, 0, 0.
\<close>

theorem empty_input_skips_plotting:
  "(snd (parse_file fs FILENAME) = Inr (s_in_raw, s_mid_raw, s_out_raw) \<and> len s_in_raw = 0 \<longrightarrow>
      main fs =
        \<lparr>stdout = [''Reading resampler_output.txt...'',
                    ''Samples Read -> In: 0, Mid: '' @ str_nat (len s_mid_raw) @
                    '', Out: '' @ str_nat (len s_out_raw)],
         calls = [], figures = [], raised = None\<rparr>
      \<and> exit_status (main fs) = 0)
   \<and> (fs FILENAME = Some [] \<longrightarrow>
        snd (parse_file fs FILENAME) = Inr (Float64_array [], Float64_array [], Float64_array [])
      \<and> len (Float64_array []) = 0
      \<and> stdout (main fs) = [''Reading resampler_output.txt...'',
                             ''Samples Read -> In: 0, Mid: 0, Out: 0''])"
proof (intro conjI impI)
  assume r: "snd (parse_file fs FILENAME) = Inr (s_in_raw, s_mid_raw, s_out_raw)
             \<and> len s_in_raw = 0"
  note p = parse_file_returned [OF r [THEN conjunct1]]
  from main_no_input [OF p r [THEN conjunct2]]
  show m: "main fs =
        \<lparr>stdout = [''Reading resampler_output.txt...'',
                    ''Samples Read -> In: 0, Mid: '' @ str_nat (len s_mid_raw) @
                    '', Out: '' @ str_nat (len s_out_raw)],
         calls = [], figures = [], raised = None\<rparr>"
    using r by (simp add: samples_read_def FILENAME_def str_nat_digit digit_char_def)
  show "exit_status (main fs) = 0"
    by (simp add: m exit_status_def)
next
  assume e: "fs FILENAME = Some []"
  have p: "parse_file fs FILENAME =
             ([''Reading '' @ FILENAME @ ''...''], Inr (np_array [], np_array [], np_array []))"
    using parse_file_wellformed [of fs FILENAME "[]" "[]" "[]" "[]", OF e] by simp
  then show "snd (parse_file fs FILENAME) =
      Inr (Float64_array [], Float64_array [], Float64_array [])"
    by (simp add: np_array_def)
  have l: "len (np_array []) = 0"
    by (simp add: len_np_array)
  then show "len (Float64_array []) = 0"
    by (simp add: np_array_def)
  from main_no_input [OF p l]
  show "stdout (main fs) = [''Reading resampler_output.txt...'',
                             ''Samples Read -> In: 0, Mid: 0, Out: 0'']"
    by (simp add: samples_read_def FILENAME_def str_nat_digit digit_char_def len_np_array)
qed

theorem empty_input_skips_plotting_witness:
  "snd (parse_file (one_file FILENAME [''MID: 4'', ''OUT: 5'', ''MID: 6'']) FILENAME)
     = Inr (Float64_array [], Int64_array [4, 6], Int64_array [5])
   \<and> main (one_file FILENAME [''MID: 4'', ''OUT: 5'', ''MID: 6'']) =
        \<lparr>stdout = [''Reading resampler_output.txt...'',
                    ''Samples Read -> In: 0, Mid: 2, Out: 1''],
         calls = [], figures = [], raised = None\<rparr>
   \<and> one_file FILENAME [] FILENAME = Some []
   \<and> stdout (main (one_file FILENAME [])) =
        [''Reading resampler_output.txt...'', ''Samples Read -> In: 0, Mid: 0, Out: 0'']"
proof -
  let ?fs = "one_file FILENAME [''MID: 4'', ''OUT: 5'', ''MID: 6'']"
  have r: "snd (parse_file ?fs FILENAME) =
             Inr (Float64_array [], Int64_array [4, 6], Int64_array [5])"
    by (simp add: parse_eval string_eval array_eval)
  have l: "len (Float64_array []) = 0" "len (Int64_array [4, 6]) = 2" "len (Int64_array [5]) = 1"
    by (simp_all add: len_def)
  have e: "one_file FILENAME [] FILENAME = Some []"
    by (simp add: one_file_def)
  from r l empty_input_skips_plotting [of ?fs "Float64_array []" "Int64_array [4, 6]"
      "Int64_array [5]"]
  have "main ?fs =
        \<lparr>stdout = [''Reading resampler_output.txt...'',
                    ''Samples Read -> In: 0, Mid: 2, Out: 1''],
         calls = [], figures = [], raised = None\<rparr>"
    by (simp add: str_nat_digit digit_char_def)
  moreover from e empty_input_skips_plotting [of "one_file FILENAME []"
      "Float64_array []" "Float64_array []" "Float64_array []"]
  have "stdout (main (one_file FILENAME [])) =
        [''Reading resampler_output.txt...'', ''Samples Read -> In: 0, Mid: 0, Out: 0'']"
    by (simp add: str_nat_digit digit_char_def)
  ultimately show ?thesis
    using r e by simp
qed

section \<open>Properties of the spectrum computation\<close>

text \<open>
  The lengths of the arrays the library operations return, and when they raise.
\<close>

lemma length_hamming: "length (hamming m) = m"
  by (simp add: hamming_def)

lemma fft_Float:
  assumes "xs \<noteq> []"
  shows "\<exists>X. fft (Float_signal xs) = Inr X \<and> length X = length xs"
  using assms by (simp add: fft_def Let_def len_signal_def)

lemma fft_Object:
  assumes "xs \<noteq> []"
  shows "fft (Object_signal xs) = Inl TypeError"
  using assms by (simp add: fft_def Let_def len_signal_def)

lemma fft_empty:
  assumes "samples a = []"
  shows "fft a = Inl ValueError"
  using assms by (simp add: fft_def len_signal_def)

lemma length_bins:
  assumes "0 < n"
  shows "length (map int [0..<(n - 1) div 2 + 1] @ [- (int n div 2)..-1]) = n"
proof -
  have "length [- (int n div 2)..-1] = n div 2"
    by (simp add: zdiv_int)
  moreover have "(n - 1) div 2 + 1 + n div 2 = n"
    using assms by presburger
  ultimately show ?thesis by simp
qed

lemma take_bins:
  "take (n div 2) (map int [0..<(n - 1) div 2 + 1] @ [- (int n div 2)..-1]) =
     map int [0..<n div 2]"
proof -
  let ?N = "(n - 1) div 2 + 1"
  have le: "n div 2 \<le> ?N"
    by presburger
  then have "take (n div 2) (map int [0..<?N] @ [- (int n div 2)..-1]) =
      take (n div 2) (map int [0..<?N])"
    by (simp only: take_append length_map length_upt) simp
  also have "\<dots> = map int (take (n div 2) [0..<?N])"
    by (simp only: take_map)
  also have "take (n div 2) [0..<?N] = [0..<n div 2]"
    using le by (simp only: take_upt add_0)
  finally show ?thesis .
qed

lemma fftfreq_Inr:
  assumes "0 < n" and "d \<noteq> 0"
  shows "\<exists>F. fftfreq n d = Inr F \<and> length F = n
           \<and> take (n div 2) F = map (\<lambda>k. real k * (1 / (real n * d))) [0..<n div 2]"
proof -
  let ?bins = "map int [0..<(n - 1) div 2 + 1] @ [- (int n div 2)..-1]"
  have "fftfreq n d = Inr (map (\<lambda>i. real_of_int i * (1 / (real n * d))) ?bins)"
    using assms by (simp add: fftfreq_def Let_def)
  moreover have "length (map (\<lambda>i. real_of_int i * (1 / (real n * d))) ?bins) = n"
    using length_bins [OF assms(1)] by simp
  moreover have "take (n div 2) (map (\<lambda>i. real_of_int i * (1 / (real n * d))) ?bins) =
      map (\<lambda>k. real k * (1 / (real n * d))) [0..<n div 2]"
    by (simp only: take_map take_bins) (simp add: comp_def)
  ultimately show ?thesis by simp
qed

lemma samples_times_array: "length w = len_signal s \<Longrightarrow> length (samples (times_array s w)) = len_signal s"
  by (cases s) (simp_all add: len_signal_def)

lemma get_fft_db_empty:
  assumes "samples sig = []"
  shows "get_fft_db sig fs = Inl ValueError"
proof -
  have "samples (times_array sig (hamming (len_signal sig))) = []"
    using assms by (cases sig) (simp_all add: len_signal_def hamming_def)
  from fft_empty [OF this] show ?thesis
    by (simp add: get_fft_db_def)
qed

lemma get_fft_db_Object:
  assumes "xs \<noteq> []"
  shows "get_fft_db (Object_signal xs) fs = Inl TypeError"
proof -
  have "length (map2 (*) xs (hamming (length xs))) = length xs"
    by (simp add: length_hamming)
  with assms have "map2 (*) xs (hamming (length xs)) \<noteq> []"
    by (metis length_0_conv)
  from fft_Object [OF this] show ?thesis
    by (simp add: get_fft_db_def len_signal_def)
qed

lemma get_fft_db_Inr:
  assumes "sig \<noteq> []" and "fs \<noteq> 0"
  shows "\<exists>X F. fft (Float_signal (map2 (*) sig (hamming (length sig)))) = Inr X
            \<and> fftfreq (length sig) (1 / fs) = Inr F
            \<and> length X = length sig \<and> length F = length sig
            \<and> take (length sig div 2) F =
                map (\<lambda>k. real k * (1 / (real (length sig) * (1 / fs)))) [0..<length sig div 2]
            \<and> get_fft_db (Float_signal sig) fs =
                Inr (take (length sig div 2) F,
                     map (\<lambda>v. 20 * log 10 (cmod v + 1 / 10 ^ 12)) (take (length sig div 2) X))"
proof -
  let ?w = "map2 (*) sig (hamming (length sig))"
  have lw: "length ?w = length sig"
    by (simp add: length_hamming)
  with assms(1) have "?w \<noteq> []"
    by (metis length_0_conv)
  from fft_Float [OF this] obtain X where X: "fft (Float_signal ?w) = Inr X"
    "length X = length ?w"
    by blast
  have n: "0 < length sig"
    using assms(1) by simp
  have d: "1 / fs \<noteq> 0"
    using assms(2) by simp
  from fftfreq_Inr [OF n d] obtain F where F: "fftfreq (length sig) (1 / fs) = Inr F"
    "length F = length sig"
    "take (length sig div 2) F =
       map (\<lambda>k. real k * (1 / (real (length sig) * (1 / fs)))) [0..<length sig div 2]"
    by blast
  have "length X = length sig"
    using X(2) lw by (simp only:)
  moreover have "get_fft_db (Float_signal sig) fs =
      Inr (take (length sig div 2) F,
           map (\<lambda>v. 20 * log 10 (cmod v + 1 / 10 ^ 12)) (take (length sig div 2) X))"
    by (simp only: get_fft_db_def Let_def len_signal_def samples.simps times_array.simps
        X(1) F(1) sum.case assms(2) if_False)
  ultimately show ?thesis
    using X(1) F by blast
qed

lemma get_fft_db_lengths:
  assumes "sig \<noteq> []" and "fs \<noteq> 0"
  shows "\<exists>freq mag. get_fft_db (Float_signal sig) fs = Inr (freq, mag)
           \<and> length freq = length sig div 2 \<and> length mag = length sig div 2"
proof -
  from get_fft_db_Inr [OF assms] obtain X F where
    "length X = length sig" "length F = length sig"
    "get_fft_db (Float_signal sig) fs =
       Inr (take (length sig div 2) F,
            map (\<lambda>v. 20 * log 10 (cmod v + 1 / 10 ^ 12)) (take (length sig div 2) X))"
    by blast
  then show ?thesis by simp
qed

text \<open>
  \<^verbatim>\<open>get_fft_db\<close> returns exactly on the non-empty \<^verbatim>\<open>float64\<close> signals; it raises ValueError on
  a signal with no sample and TypeError on an array of objects.
\<close>

lemma get_fft_db_cases:
  assumes "fs \<noteq> 0"
  shows "(samples sig = [] \<and> get_fft_db sig fs = Inl ValueError)
       \<or> (\<exists>xs. sig = Object_signal xs \<and> xs \<noteq> [] \<and> get_fft_db sig fs = Inl TypeError)
       \<or> (\<exists>xs freq mag. sig = Float_signal xs \<and> xs \<noteq> []
             \<and> get_fft_db sig fs = Inr (freq, mag)
             \<and> length freq = length xs div 2 \<and> length mag = length xs div 2)"
proof (cases "samples sig = []")
  case True
  then show ?thesis
    by (simp add: get_fft_db_empty)
next
  case False
  show ?thesis
  proof (cases sig)
    case (Float_signal xs)
    with False have "xs \<noteq> []" by simp
    from get_fft_db_lengths [OF this assms] Float_signal \<open>xs \<noteq> []\<close> show ?thesis
      by auto
  next
    case (Object_signal xs)
    with False have "xs \<noteq> []" by simp
    from get_fft_db_Object [OF this] Object_signal \<open>xs \<noteq> []\<close> show ?thesis
      by auto
  qed
qed

lemma np_max_Max:
  assumes "a \<noteq> []"
  shows "np_max a = Inr (Max (set a))"
proof -
  from assms obtain x xs where a: "a = x # xs"
    by (cases a) auto
  have "np_max (x # xs) = Inr (fold max xs x)"
    by (simp add: np_max_def)
  also have "fold max xs x = Max (set (x # xs))"
    by (rule Max.set_eq_fold [symmetric])
  finally show ?thesis
    by (simp only: a)
qed

lemma np_max_empty: "np_max [] = Inl ValueError"
  by (simp add: np_max_def)

lemma Max_shifted:
  assumes "a \<noteq> []"
  shows "Max (set (map (\<lambda>m. m - r) a)) = Max (set a) - (r::real)"
proof -
  have "mono (\<lambda>m. m - r)"
    by (simp add: mono_def)
  from mono_Max_commute [OF this, of "set a"] assms show ?thesis
    by simp
qed

lemma FS_nonzero: "FS_IN \<noteq> 0" "FS_MID \<noteq> 0" "FS_OUT \<noteq> 0"
  by (simp_all add: FS_IN_def FS_MID_def FS_OUT_def L_def M_def)

lemma FS_positive: "0 < FS_IN" "0 < FS_MID" "0 < FS_OUT"
  by (simp_all add: FS_IN_def FS_MID_def FS_OUT_def L_def M_def)

lemma take_nonneg_bins:
  assumes "0 < n" and "0 < d"
  shows "\<forall>f\<in>set (map (\<lambda>k. real k * (1 / (real n * d))) [0..<n div 2]). 0 \<le> f"
  using assms by auto

text \<open>
  Claim C4, amended. For every normalized \<^verbatim>\<open>float64\<close> signal with at least one sample, of
  length \<open>n\<close>, and every positive sample rate, \<^verbatim>\<open>get_fft_db\<close> multiplies the signal by a
  Hamming window of length \<open>n\<close>, takes the FFT of the product, keeps the first \<open>n div 2\<close>
  entries of the frequency array and of the transform, and returns those frequencies,
  which are not negative, with the magnitudes \<open>20 * log10 (|X| + 1e-12)\<close>; both returned
  arrays have length \<open>n div 2\<close>.
\<close>

theorem get_fft_db_spectrum:
  assumes "sig \<noteq> []" and "0 < fs"
  shows "\<exists>X F. length (hamming (length sig)) = length sig
           \<and> fft (Float_signal (map2 (*) sig (hamming (length sig)))) = Inr X
           \<and> fftfreq (length sig) (1 / fs) = Inr F
           \<and> get_fft_db (Float_signal sig) fs =
               Inr (take (length sig div 2) F,
                    map (\<lambda>v. 20 * log 10 (cmod v + 1 / 10 ^ 12)) (take (length sig div 2) X))
           \<and> length (take (length sig div 2) F) = length sig div 2
           \<and> length (map (\<lambda>v. 20 * log 10 (cmod v + 1 / 10 ^ 12)) (take (length sig div 2) X))
               = length sig div 2
           \<and> (\<forall>f\<in>set (take (length sig div 2) F). 0 \<le> f)"
proof -
  have fs: "fs \<noteq> 0"
    using assms(2) by simp
  from get_fft_db_Inr [OF assms(1) fs] obtain X F where
    X: "fft (Float_signal (map2 (*) sig (hamming (length sig)))) = Inr X"
    and F: "fftfreq (length sig) (1 / fs) = Inr F"
    and lX: "length X = length sig" and lF: "length F = length sig"
    and half: "take (length sig div 2) F =
                map (\<lambda>k. real k * (1 / (real (length sig) * (1 / fs)))) [0..<length sig div 2]"
    and r: "get_fft_db (Float_signal sig) fs =
                Inr (take (length sig div 2) F,
                     map (\<lambda>v. 20 * log 10 (cmod v + 1 / 10 ^ 12)) (take (length sig div 2) X))"
    by blast
  have n: "0 < length sig"
    using assms(1) by simp
  have d: "0 < 1 / fs"
    using assms(2) by simp
  have "\<forall>f\<in>set (take (length sig div 2) F). 0 \<le> f"
    using take_nonneg_bins [OF n d] by (simp only: half)
  moreover have "length (take (length sig div 2) F) = length sig div 2"
    using lF by simp
  moreover have
    "length (map (\<lambda>v. 20 * log 10 (cmod v + 1 / 10 ^ 12)) (take (length sig div 2) X))
       = length sig div 2"
    using lX by simp
  ultimately show ?thesis
    using X F r length_hamming [of "length sig"] by blast
qed

theorem get_fft_db_spectrum_witness:
  "\<exists>freq mag. get_fft_db (Float_signal [1, 0, 0, 0, 0]) FS_IN = Inr (freq, mag)
     \<and> length freq = 2 \<and> length mag = 2"
proof -
  have s: "[1, 0, 0, 0, 0] \<noteq> ([] :: real list)"
    by simp
  from get_fft_db_spectrum [OF s FS_positive(1)] show ?thesis
    by auto
qed

text \<open>
  As stated for every signal, claim C4 fails on the signal with no sample (an intermediate
  stream without lines, say): the FFT refuses it and nothing is returned. It fails too on a
  normalized array of objects (the sample \<open>2 ^ 64\<close>, normalized), which the FFT refuses
  with TypeError.
\<close>

theorem get_fft_db_counterexample:
  "get_fft_db (Float_signal []) FS_MID = Inl ValueError
   \<and> get_fft_db (Object_signal [18446744073709551616 / 30000]) FS_IN = Inl TypeError"
  by (simp add: get_fft_db_empty get_fft_db_Object)

text \<open>When the frequency-domain plotter completes, and how it fails otherwise.\<close>

lemma plot_frequency_domain_error:
  assumes "plot_frequency_domain sig_in sig_mid sig_out = Inl e"
  shows "e = ValueError \<or> e = TypeError"
proof -
  note c = get_fft_db_cases [OF FS_nonzero(1), of sig_in]
    get_fft_db_cases [OF FS_nonzero(2), of sig_mid]
    get_fft_db_cases [OF FS_nonzero(3), of sig_out]
  from assms show ?thesis
    using c
    by (auto simp: plot_frequency_domain_def np_max_def split: sum.splits prod.splits list.splits)
qed

lemma plot_frequency_domain_Inr:
  assumes "plot_frequency_domain sig_in sig_mid sig_out = Inr fig"
  shows "\<exists>xs ys zs. sig_in = Float_signal xs \<and> sig_mid = Float_signal ys
           \<and> sig_out = Float_signal zs \<and> 2 \<le> length xs \<and> ys \<noteq> [] \<and> zs \<noteq> []"
proof -
  from assms obtain f_in mag_in where i: "get_fft_db sig_in FS_IN = Inr (f_in, mag_in)"
    by (auto simp: plot_frequency_domain_def split: sum.splits prod.splits)
  from assms i obtain f_mid mag_mid where m: "get_fft_db sig_mid FS_MID = Inr (f_mid, mag_mid)"
    by (auto simp: plot_frequency_domain_def split: sum.splits prod.splits)
  from assms i m obtain f_out mag_out where
    out: "get_fft_db sig_out FS_OUT = Inr (f_out, mag_out)"
    by (auto simp: plot_frequency_domain_def split: sum.splits prod.splits)
  from assms i m out have ne: "mag_in \<noteq> []"
    by (auto simp: plot_frequency_domain_def np_max_def split: sum.splits)
  from get_fft_db_cases [OF FS_nonzero(1), of sig_in] i obtain xs where
    xs: "sig_in = Float_signal xs" "length mag_in = length xs div 2"
    by auto
  from get_fft_db_cases [OF FS_nonzero(2), of sig_mid] m obtain ys where
    ys: "sig_mid = Float_signal ys" "ys \<noteq> []"
    by auto
  from get_fft_db_cases [OF FS_nonzero(3), of sig_out] out obtain zs where
    zs: "sig_out = Float_signal zs" "zs \<noteq> []"
    by auto
  have "2 \<le> length xs"
    using ne xs(2) by (cases "length xs div 2 = 0") auto
  with xs ys zs show ?thesis by blast
qed

lemma plot_frequency_domain_returns:
  assumes "2 \<le> length sig_in" and "sig_mid \<noteq> []" and "sig_out \<noteq> []"
  shows "\<exists>fig. plot_frequency_domain (Float_signal sig_in) (Float_signal sig_mid)
           (Float_signal sig_out) = Inr fig"
proof (cases "plot_frequency_domain (Float_signal sig_in) (Float_signal sig_mid)
           (Float_signal sig_out)")
  case (Inl e)
  have "sig_in \<noteq> []"
    using assms(1) by auto
  from get_fft_db_lengths [OF this FS_nonzero(1)] obtain f_in mag_in where
    i: "get_fft_db (Float_signal sig_in) FS_IN = Inr (f_in, mag_in)"
    and li: "length mag_in = length sig_in div 2"
    by blast
  from get_fft_db_lengths [OF assms(2) FS_nonzero(2)] obtain f_mid mag_mid where
    m: "get_fft_db (Float_signal sig_mid) FS_MID = Inr (f_mid, mag_mid)"
    by blast
  from get_fft_db_lengths [OF assms(3) FS_nonzero(3)] obtain f_out mag_out where
    out: "get_fft_db (Float_signal sig_out) FS_OUT = Inr (f_out, mag_out)"
    by blast
  have "0 < length mag_in"
    using li assms(1) by simp
  then have "mag_in \<noteq> []"
    by simp
  from np_max_Max [OF this] Inl show ?thesis
    by (simp add: plot_frequency_domain_def i m out)
next
  case (Inr fig)
  then show ?thesis by blast
qed

lemma plot_frequency_domain_Float_error:
  assumes "plot_frequency_domain (Float_signal xs) (Float_signal ys) (Float_signal zs) = Inl e"
  shows "e = ValueError"
proof -
  note c = get_fft_db_cases [OF FS_nonzero(1), of "Float_signal xs"]
    get_fft_db_cases [OF FS_nonzero(2), of "Float_signal ys"]
    get_fft_db_cases [OF FS_nonzero(3), of "Float_signal zs"]
  from assms show ?thesis
    using c
    by (auto simp: plot_frequency_domain_def np_max_def split: sum.splits prod.splits list.splits)
qed

lemma plot_frequency_domain_single:
  assumes "len_signal s_in = 1"
  shows "\<exists>e. plot_frequency_domain s_in s_mid s_out = Inl e"
proof (cases "plot_frequency_domain s_in s_mid s_out")
  case (Inl e)
  then show ?thesis by blast
next
  case (Inr fig)
  from plot_frequency_domain_Inr [OF Inr] assms show ?thesis
    by (auto simp: len_signal_def)
qed

text \<open>
  Claim C5. Where the frequency-domain plotter completes (three \<^verbatim>\<open>float64\<close> signals, the
  input of two samples or more, the other two not empty), one reference level, the
  maximum of the magnitudes of the input spectrum, is subtracted from the magnitudes of
  all three spectra; the maximum of the input's relative magnitudes is then 0.
\<close>

theorem reference_level_shared:
  assumes "2 \<le> length sig_in" and "sig_mid \<noteq> []" and "sig_out \<noteq> []"
  shows "\<exists>f_in mag_in f_mid mag_mid f_out mag_out ref_level.
           get_fft_db (Float_signal sig_in) FS_IN = Inr (f_in, mag_in)
         \<and> get_fft_db (Float_signal sig_mid) FS_MID = Inr (f_mid, mag_mid)
         \<and> get_fft_db (Float_signal sig_out) FS_OUT = Inr (f_out, mag_out)
         \<and> np_max mag_in = Inr ref_level
         \<and> ref_level = Max (set mag_in)
         \<and> plot_frequency_domain (Float_signal sig_in) (Float_signal sig_mid)
               (Float_signal sig_out) =
             Inr (Freq_figure
                    (map (\<lambda>f. f / 10 ^ 6) f_in, map (\<lambda>m. m - ref_level) mag_in)
                    (map (\<lambda>f. f / 10 ^ 6) f_mid, map (\<lambda>m. m - ref_level) mag_mid)
                    (map (\<lambda>f. f / 10 ^ 6) f_out, map (\<lambda>m. m - ref_level) mag_out))
         \<and> np_max (map (\<lambda>m. m - ref_level) mag_in) = Inr 0"
proof -
  have "sig_in \<noteq> []"
    using assms(1) by auto
  from get_fft_db_lengths [OF this FS_nonzero(1)] obtain f_in mag_in where
    i: "get_fft_db (Float_signal sig_in) FS_IN = Inr (f_in, mag_in)"
    and li: "length mag_in = length sig_in div 2"
    by blast
  from get_fft_db_lengths [OF assms(2) FS_nonzero(2)] obtain f_mid mag_mid where
    m: "get_fft_db (Float_signal sig_mid) FS_MID = Inr (f_mid, mag_mid)"
    by blast
  from get_fft_db_lengths [OF assms(3) FS_nonzero(3)] obtain f_out mag_out where
    out: "get_fft_db (Float_signal sig_out) FS_OUT = Inr (f_out, mag_out)"
    by blast
  have "0 < length mag_in"
    using li assms(1) by simp
  then have ne: "mag_in \<noteq> []"
    by simp
  define ref_level where "ref_level = Max (set mag_in)"
  have r: "np_max mag_in = Inr ref_level"
    using np_max_Max [OF ne] by (simp add: ref_level_def)
  have p: "plot_frequency_domain (Float_signal sig_in) (Float_signal sig_mid)
               (Float_signal sig_out) =
             Inr (Freq_figure
                    (map (\<lambda>f. f / 10 ^ 6) f_in, map (\<lambda>m. m - ref_level) mag_in)
                    (map (\<lambda>f. f / 10 ^ 6) f_mid, map (\<lambda>m. m - ref_level) mag_mid)
                    (map (\<lambda>f. f / 10 ^ 6) f_out, map (\<lambda>m. m - ref_level) mag_out))"
    by (simp only: plot_frequency_domain_def i m out r sum.case prod.case)
  have ne': "map (\<lambda>m. m - ref_level) mag_in \<noteq> []"
    using ne by simp
  have "np_max (map (\<lambda>m. m - ref_level) mag_in) = Inr (Max (set mag_in) - ref_level)"
    using np_max_Max [OF ne'] Max_shifted [OF ne, of ref_level] by (simp only:)
  then have z: "np_max (map (\<lambda>m. m - ref_level) mag_in) = Inr 0"
    by (simp add: ref_level_def)
  from i m out r p z ref_level_def show ?thesis
    by blast
qed

theorem reference_level_shared_witness:
  "\<exists>f_in mag_in f_mid mag_mid f_out mag_out.
     length mag_in = 2 \<and> length mag_mid = 2 \<and> length mag_out = 2
     \<and> plot_frequency_domain (Float_signal [1, 0, 0, 0]) (Float_signal [1, 1, 1, 1])
         (Float_signal [2, 0, 0, 0]) =
       Inr (Freq_figure
              (map (\<lambda>f. f / 10 ^ 6) f_in, map (\<lambda>m. m - Max (set mag_in)) mag_in)
              (map (\<lambda>f. f / 10 ^ 6) f_mid, map (\<lambda>m. m - Max (set mag_in)) mag_mid)
              (map (\<lambda>f. f / 10 ^ 6) f_out, map (\<lambda>m. m - Max (set mag_in)) mag_out))
     \<and> np_max (map (\<lambda>m. m - Max (set mag_in)) mag_in) = Inr 0"
proof -
  have a: "2 \<le> length [1, 0, 0, 0 :: real]" and b: "[1, 1, 1, 1 :: real] \<noteq> []"
    and c: "[2, 0, 0, 0 :: real] \<noteq> []"
    by simp_all
  from reference_level_shared [OF a b c] obtain f_in mag_in f_mid mag_mid f_out mag_out where
    i: "get_fft_db (Float_signal [1, 0, 0, 0]) FS_IN = Inr (f_in, mag_in)"
    and m: "get_fft_db (Float_signal [1, 1, 1, 1]) FS_MID = Inr (f_mid, mag_mid)"
    and out: "get_fft_db (Float_signal [2, 0, 0, 0]) FS_OUT = Inr (f_out, mag_out)"
    and p: "plot_frequency_domain (Float_signal [1, 0, 0, 0]) (Float_signal [1, 1, 1, 1])
         (Float_signal [2, 0, 0, 0]) =
       Inr (Freq_figure
              (map (\<lambda>f. f / 10 ^ 6) f_in, map (\<lambda>m. m - Max (set mag_in)) mag_in)
              (map (\<lambda>f. f / 10 ^ 6) f_mid, map (\<lambda>m. m - Max (set mag_in)) mag_mid)
              (map (\<lambda>f. f / 10 ^ 6) f_out, map (\<lambda>m. m - Max (set mag_in)) mag_out))"
    and z: "np_max (map (\<lambda>m. m - Max (set mag_in)) mag_in) = Inr 0"
    by blast
  from get_fft_db_lengths [OF b FS_nonzero(2)] m have "length mag_mid = 2"
    by auto
  moreover from get_fft_db_lengths [OF c FS_nonzero(3)] out have "length mag_out = 2"
    by auto
  moreover from get_fft_db_lengths [of "[1, 0, 0, 0]", OF _ FS_nonzero(1)] i
  have "length mag_in = 2"
    by auto
  ultimately show ?thesis
    using p z by blast
qed

section \<open>Properties of the conversion to floats\<close>

text \<open>The number of bits of a positive number \<open>n\<close> places it between two powers of two.\<close>

lemma bit_length_bounds:
  "0 < n \<Longrightarrow> 2 ^ (bit_length n - 1) \<le> n \<and> n < 2 ^ bit_length n"
proof (induction n rule: bit_length.induct)
  case (1 n)
  then have pos: "n \<noteq> 0" by simp
  have b: "bit_length n = Suc (bit_length (n div 2))"
    using pos by (simp add: bit_length.simps [of n])
  show ?case
  proof (cases "n div 2 = 0")
    case True
    then have "n = Suc 0" using pos by presburger
    moreover have "bit_length (Suc 0) = Suc 0"
      by (simp add: bit_length.simps [of "Suc 0"] bit_length.simps [of 0])
    ultimately show ?thesis
      by simp
  next
    case False
    then have "0 < n div 2" by simp
    from "1.IH" [OF pos this]
    have lo: "2 ^ (bit_length (n div 2) - 1) \<le> n div 2"
      and hi: "n div 2 < 2 ^ bit_length (n div 2)"
      by simp_all
    have bp: "0 < bit_length (n div 2)"
      using False by (simp add: bit_length.simps [of "n div 2"])
    then have "(2::nat) ^ bit_length (n div 2) = 2 * 2 ^ (bit_length (n div 2) - 1)"
      by (cases "bit_length (n div 2)") simp_all
    with lo have "2 ^ bit_length (n div 2) \<le> 2 * (n div 2)"
      by simp
    also have "\<dots> \<le> n" by presburger
    finally have l: "2 ^ (bit_length n - 1) \<le> n"
      by (simp add: b)
    have "n < 2 * (n div 2) + 2" by presburger
    also have "\<dots> \<le> 2 * 2 ^ bit_length (n div 2)"
      using hi by simp
    finally have "n < 2 ^ bit_length n"
      by (simp add: b)
    with l show ?thesis by simp
  qed
qed

lemma bit_length_small:
  assumes "n < 2 ^ k"
  shows "bit_length n \<le> k"
proof (cases "n = 0")
  case True
  then show ?thesis by (simp add: bit_length.simps [of 0])
next
  case False
  then have "2 ^ (bit_length n - 1) \<le> n"
    using bit_length_bounds [of n] by simp
  from this assms have "(2::nat) ^ (bit_length n - 1) < 2 ^ k"
    by (rule le_less_trans)
  then have "bit_length n - 1 < k"
    by simp
  then show ?thesis by simp
qed

text \<open>Rounding to 53 bits moves a natural number by at most a \<open>2 ^ 53\<close>th of itself.\<close>

lemma round_nat_error:
  fixes a :: nat
  assumes b: "53 < bit_length a"
  defines "e \<equiv> bit_length a - 53"
  defines "q \<equiv> a div 2 ^ e" and "r \<equiv> a mod 2 ^ e" and "h \<equiv> (2::nat) ^ (e - 1)"
  defines "q' \<equiv> (if h < r \<or> (r = h \<and> odd q) then q + 1 else q)"
  shows "\<bar>int (q' * 2 ^ e) - int a\<bar> * 2 ^ 53 \<le> int a"
proof -
  have e: "0 < e" using b by (simp add: e_def)
  then have he: "(2::nat) ^ e = 2 * h"
    by (cases e) (simp_all add: h_def)
  have a: "a = q * 2 ^ e + r"
    by (simp only: q_def r_def div_mult_mod_eq)
  have "0 < h"
    by (simp add: h_def)
  then have r: "r < 2 * h"
    unfolding r_def he by simp
  have "0 < a"
    using b by (cases "a = 0") (simp_all add: bit_length.simps [of 0])
  then have "2 ^ (bit_length a - 1) \<le> a"
    using bit_length_bounds [of a] by simp
  moreover have "bit_length a - 1 = (e - 1) + 53"
    using b by (simp add: e_def)
  ultimately have big: "h * 2 ^ 53 \<le> a"
    by (simp add: h_def power_add)
  have "\<bar>int (q' * 2 ^ e) - int a\<bar> \<le> int h"
  proof (cases "h < r \<or> (r = h \<and> odd q)")
    case True
    then have "q' = q + 1" by (simp add: q'_def)
    then have "int (q' * 2 ^ e) - int a = int (2 * h) - int r"
      using a he by (simp add: algebra_simps)
    moreover have "h \<le> r" using True by auto
    ultimately show ?thesis using r by simp
  next
    case False
    then have "q' = q" by (simp add: q'_def)
    then have "int (q' * 2 ^ e) - int a = - int r"
      using a by simp
    moreover have "r \<le> h" using False by auto
    ultimately show ?thesis by simp
  qed
  then have "\<bar>int (q' * 2 ^ e) - int a\<bar> * 2 ^ 53 \<le> int h * 2 ^ 53"
    by (rule mult_right_mono) simp
  also have "\<dots> \<le> int a"
    using big by (metis of_nat_le_iff of_nat_mult of_nat_numeral of_nat_power)
  finally show ?thesis .
qed

lemma round53_exact:
  assumes "\<bar>x\<bar> < 2 ^ 53"
  shows "round53 x = x"
proof -
  have "nat \<bar>x\<bar> < 2 ^ 53"
    using assms by (simp add: nat_less_iff)
  from bit_length_small [OF this] show ?thesis
    by (simp add: round53_def Let_def)
qed

lemma round53_error_int: "\<bar>round53 x - x\<bar> * 2 ^ 53 \<le> \<bar>x\<bar>"
proof (cases "bit_length (nat \<bar>x\<bar>) \<le> 53")
  case True
  then show ?thesis by (simp add: round53_def Let_def)
next
  case False
  then have b: "53 < bit_length (nat \<bar>x\<bar>)" by simp
  define a where "a = nat \<bar>x\<bar>"
  define e where "e = bit_length a - 53"
  define q' where "q' = (if 2 ^ (e - 1) < a mod 2 ^ e \<or> (a mod 2 ^ e = 2 ^ (e - 1) \<and> odd (a div 2 ^ e))
                         then a div 2 ^ e + 1 else a div 2 ^ e)"
  have r: "round53 x = sgn x * int (q' * 2 ^ e)"
    using False by (simp add: round53_def Let_def a_def e_def q'_def)
  have b': "53 < bit_length a"
    using b by (simp only: a_def)
  have err: "\<bar>int (q' * 2 ^ e) - int a\<bar> * 2 ^ 53 \<le> int a"
    unfolding q'_def e_def using b' by (rule round_nat_error)
  have x: "x = sgn x * int a"
    by (simp add: a_def mult_sgn_abs)
  have ax: "int a = \<bar>x\<bar>"
    by (simp add: a_def)
  have "x \<noteq> 0"
    using b by (auto simp: bit_length.simps [of 0])
  then have s: "\<bar>sgn x\<bar> = 1"
    by (simp add: sgn_if)
  have "round53 x - x = sgn x * (int (q' * 2 ^ e) - int a)"
    using r x by (metis right_diff_distrib)
  then have "\<bar>round53 x - x\<bar> = \<bar>int (q' * 2 ^ e) - int a\<bar>"
    using s by (simp add: abs_mult)
  with err ax show ?thesis by simp
qed

lemma round53_error:
  "\<bar>real_of_int (round53 x) - real_of_int x\<bar> \<le> \<bar>real_of_int x\<bar> / 2 ^ 53"
proof -
  have "real_of_int (\<bar>round53 x - x\<bar> * 2 ^ 53) \<le> real_of_int \<bar>x\<bar>"
    using round53_error_int [of x] by (simp only: of_int_le_iff)
  then have "\<bar>real_of_int (round53 x) - real_of_int x\<bar> * 2 ^ 53 \<le> \<bar>real_of_int x\<bar>"
    by simp
  then show ?thesis
    by (simp add: field_simps)
qed

text \<open>An integer of 1026 bits or more is beyond the range of the floats.\<close>

lemma round53_large:
  assumes "2 ^ 1025 \<le> x"
  shows "2 ^ 1024 \<le> round53 x"
proof -
  have x: "0 < x"
    using assms by (rule less_le_trans [rotated]) simp
  have "\<bar>round53 x - x\<bar> * 2 \<le> \<bar>round53 x - x\<bar> * 2 ^ 53"
    by (rule mult_left_mono) simp_all
  also have "\<dots> \<le> \<bar>x\<bar>"
    by (rule round53_error_int)
  finally have le: "\<bar>round53 x - x\<bar> * 2 \<le> x"
    using x by simp
  have "(x - round53 x) * 2 \<le> \<bar>round53 x - x\<bar> * 2"
    by (rule mult_right_mono) simp_all
  also note le
  finally have "x \<le> 2 * round53 x"
    by (simp add: algebra_simps)
  with assms have "2 ^ 1025 \<le> 2 * round53 x"
    by (rule order_trans)
  then show ?thesis
    by simp
qed

lemma abs_less_of_int:
  assumes "\<bar>real_of_int v\<bar> < 2 ^ 53"
  shows "\<bar>v\<bar> < 2 ^ 53"
proof -
  have "real_of_int \<bar>v\<bar> < real_of_int (2 ^ 53)"
    using assms by simp
  then show ?thesis
    by (simp only: of_int_less_iff)
qed

section \<open>Properties of the normalization\<close>

text \<open>
  The division of an array of objects succeeds exactly when every element converts, and
  normalization is then the division of the converted elements.
\<close>

lemma divide_objects_Inr:
  assumes "list_all (\<lambda>v. \<bar>round53 v\<bar> < 2 ^ 1024) xs"
  shows "divide_objects xs d = Inr (map (\<lambda>v. real_of_int (round53 v) / d) xs)"
  using assms by (induction xs) (simp_all add: py_float_def)

lemma divide_objects_Inl:
  assumes "\<not> list_all (\<lambda>v. \<bar>round53 v\<bar> < 2 ^ 1024) xs"
  shows "divide_objects xs d = Inl OverflowError"
  using assms
proof (induction xs)
  case Nil
  then show ?case by simp
next
  case (Cons v vs)
  show ?case
  proof (cases "\<bar>round53 v\<bar> < 2 ^ 1024")
    case True
    with Cons show ?thesis
      by (simp add: py_float_def)
  next
    case False
    then show ?thesis
      by (simp add: py_float_def)
  qed
qed

lemma normalize_convertible:
  assumes "convertible raw"
  shows "normalize_stream raw =
           Inr ((case raw of Object_array _ \<Rightarrow> Object_signal | _ \<Rightarrow> Float_signal)
                  (map (\<lambda>x. x / NORM_FACTOR) (float_elements raw)))"
  using assms by (cases raw) (simp_all add: divide_objects_Inr comp_def)

lemma normalize_not_convertible:
  assumes "\<not> convertible raw"
  shows "normalize_stream raw = Inl OverflowError"
  using assms by (cases raw) (simp_all add: divide_objects_Inl)

lemma normalize_Inr:
  assumes "normalize_stream raw = Inr s"
  shows "convertible raw \<and> samples s = map (\<lambda>x. x / NORM_FACTOR) (float_elements raw)"
proof (cases "convertible raw")
  case True
  from normalize_convertible [OF True] assms
  have "s = (case raw of Object_array _ \<Rightarrow> Object_signal | _ \<Rightarrow> Float_signal)
              (map (\<lambda>x. x / NORM_FACTOR) (float_elements raw))"
    by simp
  then have "samples s = map (\<lambda>x. x / NORM_FACTOR) (float_elements raw)"
    by (cases raw) simp_all
  with True show ?thesis
    by simp
next
  case False
  from normalize_not_convertible [OF False] assms show ?thesis
    by simp
qed

lemma normalize_Inl:
  assumes "normalize_stream raw = Inl e"
  shows "e = OverflowError \<and> \<not> convertible raw"
proof (cases "convertible raw")
  case True
  from normalize_convertible [OF True] assms show ?thesis
    by simp
next
  case False
  from normalize_not_convertible [OF False] assms False show ?thesis
    by simp
qed

lemma normalize_plain:
  assumes "\<forall>xs. raw \<noteq> Object_array xs"
  shows "normalize_stream raw = Inr (Float_signal (map (\<lambda>x. x / NORM_FACTOR) (float_elements raw)))"
  using assms by (cases raw) (simp_all add: comp_def)

lemma length_float_elements: "length (float_elements raw) = len raw"
  by (cases raw) (simp_all add: len_def)

lemma float_elements_error:
  assumes "i < len raw"
  shows "\<bar>float_elements raw ! i - elements raw ! i\<bar> \<le> \<bar>elements raw ! i\<bar> / 2 ^ 53"
proof (cases raw)
  case (Float64_array xs)
  then show ?thesis by simp
next
  case (Int64_array xs)
  with assms round53_error [of "xs ! i"] show ?thesis
    by (simp add: len_def)
next
  case (UInt64_array xs)
  with assms round53_error [of "xs ! i"] show ?thesis
    by (simp add: len_def)
next
  case (Object_array xs)
  with assms round53_error [of "xs ! i"] show ?thesis
    by (simp add: len_def)
qed

lemma float_elements_exact:
  assumes "i < len raw" and "\<bar>elements raw ! i\<bar> < 2 ^ 53"
  shows "float_elements raw ! i = elements raw ! i"
proof (cases raw)
  case (Float64_array xs)
  then show ?thesis by simp
next
  case (Int64_array xs)
  with assms have "\<bar>xs ! i\<bar> < 2 ^ 53"
    by (simp add: len_def abs_less_of_int)
  with Int64_array assms(1) show ?thesis
    by (simp add: len_def round53_exact)
next
  case (UInt64_array xs)
  with assms have "\<bar>xs ! i\<bar> < 2 ^ 53"
    by (simp add: len_def abs_less_of_int)
  with UInt64_array assms(1) show ?thesis
    by (simp add: len_def round53_exact)
next
  case (Object_array xs)
  with assms have "\<bar>xs ! i\<bar> < 2 ^ 53"
    by (simp add: len_def abs_less_of_int)
  with Object_array assms(1) show ?thesis
    by (simp add: len_def round53_exact)
qed

lemma samples_slice_to: "samples (slice_to n s) = take n (samples s)"
  by (cases s) simp_all

section \<open>Properties of the entry point\<close>

text \<open>The run once the parser has returned a non-empty input stream.\<close>

lemma main_normalize_error:
  assumes "parse_file fs FILENAME = (out, Inr (a, b, c))" and "0 < len a"
    and "\<not> convertible a \<or> \<not> convertible b \<or> \<not> convertible c"
  shows "main fs =
     \<lparr>stdout = out @ [samples_read (a, b, c),
                       ''Normalizing all signals by Fixed Factor: 30000.0''],
      calls = [], figures = [], raised = Some OverflowError\<rparr>"
proof -
  have "\<And>r. normalize_stream r = Inl OverflowError \<or> (\<exists>s. normalize_stream r = Inr s \<and> convertible r)"
    using normalize_convertible normalize_not_convertible by blast
  then show ?thesis
    using assms normalize_not_convertible [of a] normalize_not_convertible [of b]
      normalize_not_convertible [of c]
    by (cases "normalize_stream a"; cases "normalize_stream b"; cases "normalize_stream c")
       (auto simp: main_def Let_def dest: normalize_Inl normalize_Inr)
qed

lemma main_plot_error:
  assumes "parse_file fs FILENAME = (out, Inr (a, b, c))" and "0 < len a"
    and "normalize_stream a = Inr s_in" and "normalize_stream b = Inr s_mid"
    and "normalize_stream c = Inr s_out"
    and "plot_frequency_domain s_in s_mid s_out = Inl e"
  shows "main fs =
     \<lparr>stdout = out @ [samples_read (a, b, c),
                       ''Normalizing all signals by Fixed Factor: 30000.0''],
      calls = [Plot_time_domain (slice_to 200 s_in) (slice_to 400 s_mid) (slice_to 150 s_out),
               Plot_frequency_domain s_in s_mid s_out],
      figures = [Time_figure (slice_to 200 s_in) (slice_to 400 s_mid) (slice_to 150 s_out)],
      raised = Some e\<rparr>"
  using assms by (simp add: main_def Let_def plot_time_domain_def)

lemma main_plot_ok:
  assumes "parse_file fs FILENAME = (out, Inr (a, b, c))" and "0 < len a"
    and "normalize_stream a = Inr s_in" and "normalize_stream b = Inr s_mid"
    and "normalize_stream c = Inr s_out"
    and "plot_frequency_domain s_in s_mid s_out = Inr fig2"
  shows "main fs =
     \<lparr>stdout = out @ [samples_read (a, b, c),
                       ''Normalizing all signals by Fixed Factor: 30000.0''],
      calls = [Plot_time_domain (slice_to 200 s_in) (slice_to 400 s_mid) (slice_to 150 s_out),
               Plot_frequency_domain s_in s_mid s_out,
               Show],
      figures = [Time_figure (slice_to 200 s_in) (slice_to 400 s_mid) (slice_to 150 s_out),
                 fig2],
      raised = None\<rparr>"
  using assms by (simp add: main_def Let_def plot_time_domain_def)

lemma main_first_calls:
  assumes "snd (parse_file fs FILENAME) = Inr (a, b, c)" and "0 < len a"
    and "normalize_stream a = Inr s_in" and "normalize_stream b = Inr s_mid"
    and "normalize_stream c = Inr s_out"
  shows "take 2 (calls (main fs)) =
           [Plot_time_domain (slice_to 200 s_in) (slice_to 400 s_mid) (slice_to 150 s_out),
            Plot_frequency_domain s_in s_mid s_out]"
proof -
  note p = parse_file_returned [OF assms(1)]
  show ?thesis
  proof (cases "plot_frequency_domain s_in s_mid s_out")
    case (Inl e)
    from main_plot_error [OF p assms(2-5) Inl] show ?thesis
      by simp
  next
    case (Inr fig2)
    from main_plot_ok [OF p assms(2-5) Inr] show ?thesis
      by simp
  qed
qed

lemma main_calls_made:
  assumes "calls (main fs) \<noteq> []"
  shows "\<exists>a b c s_in s_mid s_out.
           snd (parse_file fs FILENAME) = Inr (a, b, c) \<and> 0 < len a
         \<and> normalize_stream a = Inr s_in \<and> normalize_stream b = Inr s_mid
         \<and> normalize_stream c = Inr s_out"
  using assms
  by (auto simp: main_def Let_def split: prod.splits sum.splits if_splits)

text \<open>
  Claim C6, amended. Normalization converts the elements of a stream to floats and divides
  each by 30000, the same for all three streams, whose quotients are what the plotters
  receive. It returns exactly for the convertible arrays, which include every array that
  is not an array of objects, and raises OverflowError otherwise. Where it returns it keeps
  the length and is undone by multiplying by 30000: the product is the float that the
  sample was converted to, which differs from the sample by at most its \<open>2 ^ 53\<close>th part
  and not at all for a sample below \<open>2 ^ 53\<close> in absolute value.
\<close>

theorem normalize_invertible:
  "(normalize_stream raw = Inr s \<longrightarrow>
      len_signal s = len raw
    \<and> samples s = map (\<lambda>x. x / 30000) (float_elements raw)
    \<and> (\<forall>i<len raw.
          samples s ! i * 30000 = float_elements raw ! i
        \<and> \<bar>samples s ! i * 30000 - elements raw ! i\<bar> \<le> \<bar>elements raw ! i\<bar> / 2 ^ 53
        \<and> (\<bar>elements raw ! i\<bar> < 2 ^ 53 \<longrightarrow> samples s ! i * 30000 = elements raw ! i)))
   \<and> ((\<exists>s. normalize_stream raw = Inr s) = convertible raw)
   \<and> (normalize_stream raw = Inl e \<longrightarrow> e = OverflowError)
   \<and> ((\<forall>xs. raw \<noteq> Object_array xs) \<longrightarrow> convertible raw)
   \<and> (snd (parse_file fs FILENAME) = Inr (s_in_raw, s_mid_raw, s_out_raw) \<and> 0 < len s_in_raw
        \<and> normalize_stream s_in_raw = Inr s_in \<and> normalize_stream s_mid_raw = Inr s_mid
        \<and> normalize_stream s_out_raw = Inr s_out \<longrightarrow>
        Plot_time_domain (slice_to 200 s_in) (slice_to 400 s_mid) (slice_to 150 s_out)
          \<in> set (calls (main fs))
      \<and> Plot_frequency_domain s_in s_mid s_out \<in> set (calls (main fs)))
   \<and> (snd (parse_file fs FILENAME) = Inr (s_in_raw, s_mid_raw, s_out_raw) \<and> 0 < len s_in_raw
        \<and> (\<not> convertible s_in_raw \<or> \<not> convertible s_mid_raw \<or> \<not> convertible s_out_raw) \<longrightarrow>
        raised (main fs) = Some OverflowError \<and> calls (main fs) = [])"
proof (intro conjI impI allI)
  assume r: "normalize_stream raw = Inr s"
  from normalize_Inr [OF r] have s: "samples s = map (\<lambda>x. x / 30000) (float_elements raw)"
    by (simp add: NORM_FACTOR_def)
  then show "samples s = map (\<lambda>x. x / 30000) (float_elements raw)" .
  show "len_signal s = len raw"
    by (simp add: len_signal_def s length_float_elements)
  fix i assume i: "i < len raw"
  then show inv: "samples s ! i * 30000 = float_elements raw ! i"
    by (simp add: s length_float_elements)
  show "\<bar>samples s ! i * 30000 - elements raw ! i\<bar> \<le> \<bar>elements raw ! i\<bar> / 2 ^ 53"
    using float_elements_error [OF i] by (simp only: inv)
  assume "\<bar>elements raw ! i\<bar> < 2 ^ 53"
  from float_elements_exact [OF i this] show "samples s ! i * 30000 = elements raw ! i"
    by (simp only: inv)
next
  show "(\<exists>s. normalize_stream raw = Inr s) = convertible raw"
    using normalize_convertible [of raw] normalize_Inr [of raw] by blast
next
  assume "normalize_stream raw = Inl e"
  from normalize_Inl [OF this] show "e = OverflowError"
    by simp
next
  assume "\<forall>xs. raw \<noteq> Object_array xs"
  then show "convertible raw"
    by (cases raw) simp_all
next
  assume h: "snd (parse_file fs FILENAME) = Inr (s_in_raw, s_mid_raw, s_out_raw) \<and> 0 < len s_in_raw
        \<and> normalize_stream s_in_raw = Inr s_in \<and> normalize_stream s_mid_raw = Inr s_mid
        \<and> normalize_stream s_out_raw = Inr s_out"
  then have t: "take 2 (calls (main fs)) =
        [Plot_time_domain (slice_to 200 s_in) (slice_to 400 s_mid) (slice_to 150 s_out),
         Plot_frequency_domain s_in s_mid s_out]"
    using main_first_calls [of fs s_in_raw s_mid_raw s_out_raw s_in s_mid s_out] by blast
  have sub: "set (take 2 (calls (main fs))) \<subseteq> set (calls (main fs))"
    by (rule set_take_subset)
  from sub show "Plot_time_domain (slice_to 200 s_in) (slice_to 400 s_mid) (slice_to 150 s_out)
          \<in> set (calls (main fs))"
    by (simp add: t)
  from sub show "Plot_frequency_domain s_in s_mid s_out \<in> set (calls (main fs))"
    by (simp add: t)
next
  assume h: "snd (parse_file fs FILENAME) = Inr (s_in_raw, s_mid_raw, s_out_raw) \<and> 0 < len s_in_raw
        \<and> (\<not> convertible s_in_raw \<or> \<not> convertible s_mid_raw \<or> \<not> convertible s_out_raw)"
  note p = parse_file_returned [OF h [THEN conjunct1]]
  from main_normalize_error [OF p h [THEN conjunct2, THEN conjunct1]
      h [THEN conjunct2, THEN conjunct2]]
  show "raised (main fs) = Some OverflowError" and "calls (main fs) = []"
    by simp_all
qed

theorem normalize_invertible_witness:
  "normalize_stream (Int64_array [15000, - 7]) = Inr (Float_signal [1 / 2, - 7 / 30000])
   \<and> samples (Float_signal [1 / 2, - 7 / 30000]) ! 1 * 30000 = - 7
   \<and> normalize_stream (Int64_array [9007199254740993]) =
       Inr (Float_signal [9007199254740992 / 30000])
   \<and> \<bar>samples (Float_signal [9007199254740992 / 30000]) ! 0 * 30000 - 9007199254740993\<bar>
       \<le> 9007199254740993 / 2 ^ 53
   \<and> convertible (Int64_array [15000, - 7])"
proof -
  have n1: "normalize_stream (Int64_array [15000, - 7]) = Inr (Float_signal [1 / 2, - 7 / 30000])"
    by (simp add: NORM_FACTOR_def round53_exact)
  have n2: "normalize_stream (Int64_array [9007199254740993]) =
       Inr (Float_signal [9007199254740992 / 30000])"
    by (simp add: NORM_FACTOR_def round_eval)
  have i1: "(1::nat) < len (Int64_array [15000, - 7])"
    and i2: "(0::nat) < len (Int64_array [9007199254740993])"
    by (simp_all add: len_def)
  note t1 = normalize_invertible [of "Int64_array [15000, - 7]"
      "Float_signal [1 / 2, - 7 / 30000]" undefined no_files undefined undefined undefined
      undefined undefined undefined]
  note t2 = normalize_invertible [of "Int64_array [9007199254740993]"
      "Float_signal [9007199254740992 / 30000]" undefined no_files undefined undefined undefined
      undefined undefined undefined]
  from t1 n1 i1 have a: "samples (Float_signal [1 / 2, - 7 / 30000]) ! 1 * 30000 =
      elements (Int64_array [15000, - 7]) ! 1"
    by simp
  from t1 have c: "convertible (Int64_array [15000, - 7])"
    by simp
  from t2 n2 i2 have "\<bar>samples (Float_signal [9007199254740992 / 30000]) ! 0 * 30000
        - elements (Int64_array [9007199254740993]) ! 0\<bar>
      \<le> \<bar>elements (Int64_array [9007199254740993]) ! 0\<bar> / 2 ^ 53"
    by blast
  with a c n1 n2 show ?thesis
    by simp
qed

text \<open>
  As stated for every stream, claim C6 fails on a stream that holds the sample \<open>10 ^ 400\<close>:
  the division raises OverflowError and there is no normalized stream.
\<close>

theorem normalize_overflow_counterexample:
  "normalize_stream (np_array [10 ^ 400]) = Inl OverflowError"
proof -
  have big: "(2::int) ^ 1025 \<le> 10 ^ 400"
    by simp
  have a: "np_array [10 ^ 400] = Object_array [10 ^ 400]"
    by (simp add: array_eval)
  have c: "\<not> convertible (Object_array [10 ^ 400])"
    using round53_large [OF big] by simp
  show ?thesis
    unfolding a by (rule normalize_not_convertible [OF c])
qed

text \<open>A file of \<open>n\<close> equal input lines, to see the truncation at work.\<close>

lemma parse_lines_replicate:
  "parse_lines (a, b, c) (replicate n ''IN: 3'') = Inr (a @ replicate n 3, b, c)"
proof (induction n arbitrary: a)
  case 0
  then show ?case by simp
next
  case (Suc n)
  have "parse_line (a, b, c) ''IN: 3'' = Inr (a @ [3], b, c)"
    by (simp add: parse_line_def line_value_def string_eval)
  with Suc [of "a @ [3]"] show ?case
    by (simp add: replicate_app_Cons_same)
qed

lemma np_array_replicate:
  assumes "0 < n"
  shows "np_array (replicate n 3) = Int64_array (replicate n 3)"
  using assms by (simp add: np_array_def list_all_iff in_int64_def)

text \<open>
  Claim C9. When the parser returns a non-empty input stream and the three streams are
  normalized, the first two calls of the run are the time-domain plotter on the first 200,
  400 and 150 samples of the normalized input, intermediate and output streams, and the
  frequency-domain plotter on the three normalized streams in full; and a run that makes
  any call at all makes these two first.
\<close>

theorem plotter_arguments:
  "(snd (parse_file fs FILENAME) = Inr (s_in_raw, s_mid_raw, s_out_raw) \<and> 0 < len s_in_raw
      \<and> normalize_stream s_in_raw = Inr s_in \<and> normalize_stream s_mid_raw = Inr s_mid
      \<and> normalize_stream s_out_raw = Inr s_out \<longrightarrow>
      take 2 (calls (main fs)) =
        [Plot_time_domain (slice_to 200 s_in) (slice_to 400 s_mid) (slice_to 150 s_out),
         Plot_frequency_domain s_in s_mid s_out])
   \<and> (calls (main fs) \<noteq> [] \<longrightarrow>
        (\<exists>a b c x y z.
            snd (parse_file fs FILENAME) = Inr (a, b, c) \<and> 0 < len a
          \<and> normalize_stream a = Inr x \<and> normalize_stream b = Inr y
          \<and> normalize_stream c = Inr z
          \<and> take 2 (calls (main fs)) =
              [Plot_time_domain (slice_to 200 x) (slice_to 400 y) (slice_to 150 z),
               Plot_frequency_domain x y z]))
   \<and> samples (slice_to n s) = take n (samples s)"
proof (intro conjI impI)
  assume "snd (parse_file fs FILENAME) = Inr (s_in_raw, s_mid_raw, s_out_raw) \<and> 0 < len s_in_raw
      \<and> normalize_stream s_in_raw = Inr s_in \<and> normalize_stream s_mid_raw = Inr s_mid
      \<and> normalize_stream s_out_raw = Inr s_out"
  then show "take 2 (calls (main fs)) =
        [Plot_time_domain (slice_to 200 s_in) (slice_to 400 s_mid) (slice_to 150 s_out),
         Plot_frequency_domain s_in s_mid s_out]"
    using main_first_calls [of fs s_in_raw s_mid_raw s_out_raw s_in s_mid s_out] by blast
next
  assume "calls (main fs) \<noteq> []"
  from main_calls_made [OF this] obtain a b c x y z where
    h: "snd (parse_file fs FILENAME) = Inr (a, b, c)" "0 < len a"
      "normalize_stream a = Inr x" "normalize_stream b = Inr y" "normalize_stream c = Inr z"
    by blast
  from main_first_calls [OF h] h
  show "\<exists>a b c x y z.
            snd (parse_file fs FILENAME) = Inr (a, b, c) \<and> 0 < len a
          \<and> normalize_stream a = Inr x \<and> normalize_stream b = Inr y
          \<and> normalize_stream c = Inr z
          \<and> take 2 (calls (main fs)) =
              [Plot_time_domain (slice_to 200 x) (slice_to 400 y) (slice_to 150 z),
               Plot_frequency_domain x y z]"
    by blast
next
  show "samples (slice_to n s) = take n (samples s)"
    by (rule samples_slice_to)
qed

theorem plotter_arguments_witness:
  "take 2 (calls (main (one_file FILENAME (replicate 201 ''IN: 3'')))) =
     [Plot_time_domain (Float_signal (replicate 200 (1 / 10000))) (Float_signal [])
        (Float_signal []),
      Plot_frequency_domain (Float_signal (replicate 201 (1 / 10000))) (Float_signal [])
        (Float_signal [])]"
proof -
  let ?fs = "one_file FILENAME (replicate 201 ''IN: 3'')"
  have "parse_lines ([], [], []) (replicate 201 ''IN: 3'') = Inr (replicate 201 3, [], [])"
    using parse_lines_replicate [of "[]" "[]" "[]" 201] by simp
  then have "snd (parse_file ?fs FILENAME) = Inr (np_array (replicate 201 3), np_array [], np_array [])"
    by (simp add: parse_file_def open_file_def one_file_def)
  then have r: "snd (parse_file ?fs FILENAME) =
      Inr (Int64_array (replicate 201 3), Float64_array [], Float64_array [])"
    by (simp add: np_array_replicate) (simp add: np_array_def)
  have l: "0 < len (Int64_array (replicate 201 3))"
    by (simp add: len_def)
  have "round53 3 = 3"
    by (simp add: round53_exact)
  then have n: "normalize_stream (Int64_array (replicate 201 3)) =
      Inr (Float_signal (replicate 201 (1 / 10000)))"
    "normalize_stream (Float64_array []) = Inr (Float_signal [])"
    by (simp_all add: NORM_FACTOR_def)
  from r l n plotter_arguments [of ?fs "Int64_array (replicate 201 3)" "Float64_array []"
      "Float64_array []" "Float_signal (replicate 201 (1 / 10000))" "Float_signal []"
      "Float_signal []"]
  show ?thesis
    by simp
qed

text \<open>
  Claim C10. For an input signal of exactly one sample the magnitude array of its spectrum
  is empty, its maximum raises ValueError, and the frequency-domain plotter fails;
  whenever that plotter completes, the input has two samples or more. A run whose parsed
  input stream has one sample passes the gate of the entry point and ends with an uncaught
  exception before anything is shown: the ValueError of the maximum when none of the three
  streams is an array of objects.
\<close>

theorem single_sample_input_fails:
  "(length sig_in = 1 \<longrightarrow>
      (\<exists>f_in. get_fft_db (Float_signal sig_in) FS_IN = Inr (f_in, []))
      \<and> np_max [] = Inl ValueError
      \<and> plot_frequency_domain (Float_signal sig_in) (Float_signal sig_mid)
            (Float_signal sig_out) = Inl ValueError)
   \<and> (len_signal s_in = 1 \<longrightarrow>
        plot_frequency_domain s_in s_mid s_out \<in> {Inl ValueError, Inl TypeError})
   \<and> (plot_frequency_domain s_in s_mid s_out = Inr fig \<longrightarrow> 2 \<le> len_signal s_in)
   \<and> (snd (parse_file fs FILENAME) = Inr (s_in_raw, s_mid_raw, s_out_raw) \<and> len s_in_raw = 1 \<longrightarrow>
        raised (main fs) \<in> {Some ValueError, Some TypeError, Some OverflowError}
      \<and> exit_status (main fs) = 1
      \<and> Show \<notin> set (calls (main fs)))
   \<and> (snd (parse_file fs FILENAME) = Inr (s_in_raw, s_mid_raw, s_out_raw) \<and> len s_in_raw = 1
        \<and> (\<forall>xs. s_in_raw \<noteq> Object_array xs) \<and> (\<forall>xs. s_mid_raw \<noteq> Object_array xs)
        \<and> (\<forall>xs. s_out_raw \<noteq> Object_array xs) \<longrightarrow>
        raised (main fs) = Some ValueError
      \<and> length (calls (main fs)) = 2)"
proof -
  have one: "plot_frequency_domain (Float_signal a) (Float_signal b) (Float_signal c)
      = Inl ValueError" if "length a = 1" for a b c
  proof -
    from that have "len_signal (Float_signal a) = 1"
      by (simp add: len_signal_def)
    from plot_frequency_domain_single [OF this] obtain e where
      e: "plot_frequency_domain (Float_signal a) (Float_signal b) (Float_signal c) = Inl e"
      by blast
    from plot_frequency_domain_Float_error [OF e] e show ?thesis
      by simp
  qed
  have spec: "\<exists>f_in. get_fft_db (Float_signal sig_in) FS_IN = Inr (f_in, [])"
    if "length sig_in = 1"
  proof -
    from that have "sig_in \<noteq> []"
      by auto
    from get_fft_db_lengths [OF this FS_nonzero(1)] that show ?thesis
      by auto
  qed
  have any: "plot_frequency_domain s_in s_mid s_out \<in> {Inl ValueError, Inl TypeError}"
    if "len_signal s_in = 1"
  proof -
    from plot_frequency_domain_single [OF that] obtain e where
      e: "plot_frequency_domain s_in s_mid s_out = Inl e"
      by blast
    from plot_frequency_domain_error [OF e] e show ?thesis
      by auto
  qed
  have two: "2 \<le> len_signal s_in" if "plot_frequency_domain s_in s_mid s_out = Inr fig"
    using plot_frequency_domain_Inr [OF that] by (auto simp: len_signal_def)
  have run: "raised (main fs) \<in> {Some ValueError, Some TypeError, Some OverflowError}
      \<and> exit_status (main fs) = 1 \<and> Show \<notin> set (calls (main fs))"
    if r: "snd (parse_file fs FILENAME) = Inr (s_in_raw, s_mid_raw, s_out_raw)"
      and l: "len s_in_raw = 1"
  proof -
    note p = parse_file_returned [OF r]
    have pos: "0 < len s_in_raw"
      using l by simp
    show ?thesis
    proof (cases "convertible s_in_raw \<and> convertible s_mid_raw \<and> convertible s_out_raw")
      case False
      then have "\<not> convertible s_in_raw \<or> \<not> convertible s_mid_raw \<or> \<not> convertible s_out_raw"
        by blast
      from main_normalize_error [OF p pos this] show ?thesis
        by (simp add: exit_status_def)
    next
      case True
      then obtain x y z where n: "normalize_stream s_in_raw = Inr x"
        "normalize_stream s_mid_raw = Inr y" "normalize_stream s_out_raw = Inr z"
        using normalize_convertible by blast
      from normalize_Inr [OF n(1)] l have "len_signal x = 1"
        by (simp add: len_signal_def length_float_elements)
      from plot_frequency_domain_single [OF this] obtain e where
        e: "plot_frequency_domain x y z = Inl e"
        by blast
      from plot_frequency_domain_error [OF e] main_plot_error [OF p pos n e] show ?thesis
        by (auto simp: exit_status_def)
    qed
  qed
  have plain: "raised (main fs) = Some ValueError \<and> length (calls (main fs)) = 2"
    if r: "snd (parse_file fs FILENAME) = Inr (s_in_raw, s_mid_raw, s_out_raw)"
      and l: "len s_in_raw = 1"
      and o: "\<forall>xs. s_in_raw \<noteq> Object_array xs" "\<forall>xs. s_mid_raw \<noteq> Object_array xs"
        "\<forall>xs. s_out_raw \<noteq> Object_array xs"
  proof -
    note p = parse_file_returned [OF r]
    have pos: "0 < len s_in_raw"
      using l by simp
    note n = normalize_plain [OF o(1)] normalize_plain [OF o(2)] normalize_plain [OF o(3)]
    have "length (map (\<lambda>x. x / NORM_FACTOR) (float_elements s_in_raw)) = 1"
      using l by (simp add: length_float_elements)
    from main_plot_error [OF p pos n one [OF this]] show ?thesis
      by simp
  qed
  from one spec any two run plain show ?thesis
    by (simp add: np_max_empty)
qed

theorem single_sample_input_fails_witness:
  "plot_frequency_domain (Float_signal [1]) (Float_signal [1, 2]) (Float_signal [3]) =
     Inl ValueError
   \<and> raised (main (one_file FILENAME [''IN: 5'', ''MID: 1'', ''MID: 2'', ''OUT: 3''])) =
       Some ValueError
   \<and> raised (main (one_file FILENAME [''IN: 18446744073709551616'', ''MID: 1'', ''OUT: 3''])) =
       Some TypeError"
proof -
  let ?fs = "one_file FILENAME [''IN: 5'', ''MID: 1'', ''MID: 2'', ''OUT: 3'']"
  let ?fs' = "one_file FILENAME [''IN: 18446744073709551616'', ''MID: 1'', ''OUT: 3'']"
  have r: "snd (parse_file ?fs FILENAME) = Inr (Int64_array [5], Int64_array [1, 2], Int64_array [3])"
    by (simp add: parse_eval string_eval array_eval)
  have l: "len (Int64_array [5]) = 1" "length [1 :: real] = 1"
    by (simp_all add: len_def)
  note t = single_sample_input_fails [of "[1]" "[1, 2]" "[3]" undefined undefined undefined
      undefined ?fs "Int64_array [5]" "Int64_array [1, 2]" "Int64_array [3]"]
  from t l have a: "plot_frequency_domain (Float_signal [1]) (Float_signal [1, 2])
      (Float_signal [3]) = Inl ValueError"
    by blast
  from t r l have b: "raised (main ?fs) = Some ValueError"
    by simp
  have r': "snd (parse_file ?fs' FILENAME) =
      Inr (Object_array [18446744073709551616], Int64_array [1], Int64_array [3])"
    by (simp add: parse_eval string_eval array_eval)
  have n: "normalize_stream (Object_array [18446744073709551616]) =
      Inr (Object_signal [18446744073709551616 / 30000])"
    "normalize_stream (Int64_array [1]) = Inr (Float_signal [1 / 30000])"
    "normalize_stream (Int64_array [3]) = Inr (Float_signal [1 / 10000])"
    by (simp_all add: py_float_def round_eval NORM_FACTOR_def)
  have "get_fft_db (Object_signal [18446744073709551616 / 30000]) FS_IN = Inl TypeError"
    by (rule get_fft_db_Object) simp
  then have e: "plot_frequency_domain (Object_signal [18446744073709551616 / 30000])
      (Float_signal [1 / 30000]) (Float_signal [1 / 10000]) = Inl TypeError"
    by (simp add: plot_frequency_domain_def)
  have pos: "0 < len (Object_array [18446744073709551616])"
    by (simp add: len_def)
  from main_plot_error [OF parse_file_returned [OF r'] pos n e]
  have "raised (main ?fs') = Some TypeError"
    by simp
  with a b show ?thesis
    by simp
qed

text \<open>
  Claim C8. On the file with the four lines \<^verbatim>\<open>IN: 15000\<close>, \<^verbatim>\<open>IN: -15000\<close>, \<^verbatim>\<open>MID: 30000\<close>,
  \<^verbatim>\<open>OUT: 0\<close> (with or without their line terminators) the parsed streams are
  \<open>[15000, -15000]\<close>, \<open>[30000]\<close>, \<open>[0]\<close>, the normalized streams are \<open>[0.5, -0.5]\<close>,
  \<open>[1.0]\<close>, \<open>[0.0]\<close>, and the run hands these to both plotters and shows the figures.
\<close>

theorem end_to_end_scenario:
  "snd (parse_file (one_file FILENAME [''IN: 15000'', ''IN: -15000'', ''MID: 30000'', ''OUT: 0''])
          FILENAME) = Inr (Int64_array [15000, - 15000], Int64_array [30000], Int64_array [0])
   \<and> snd (parse_file (one_file FILENAME [''IN: 15000\<newline>'', ''IN: -15000\<newline>'',
                                           ''MID: 30000\<newline>'', ''OUT: 0\<newline>''])
          FILENAME) = Inr (Int64_array [15000, - 15000], Int64_array [30000], Int64_array [0])
   \<and> normalize_stream (Int64_array [15000, - 15000]) = Inr (Float_signal [1 / 2, - 1 / 2])
   \<and> normalize_stream (Int64_array [30000]) = Inr (Float_signal [1])
   \<and> normalize_stream (Int64_array [0]) = Inr (Float_signal [0])
   \<and> stdout (main (one_file FILENAME
                     [''IN: 15000'', ''IN: -15000'', ''MID: 30000'', ''OUT: 0''])) =
       [''Reading resampler_output.txt...'', ''Samples Read -> In: 2, Mid: 1, Out: 1'',
        ''Normalizing all signals by Fixed Factor: 30000.0'']
   \<and> calls (main (one_file FILENAME
                    [''IN: 15000'', ''IN: -15000'', ''MID: 30000'', ''OUT: 0''])) =
       [Plot_time_domain (Float_signal [1 / 2, - 1 / 2]) (Float_signal [1]) (Float_signal [0]),
        Plot_frequency_domain (Float_signal [1 / 2, - 1 / 2]) (Float_signal [1])
          (Float_signal [0]),
        Show]
   \<and> raised (main (one_file FILENAME
                     [''IN: 15000'', ''IN: -15000'', ''MID: 30000'', ''OUT: 0''])) = None"
proof -
  let ?fs = "one_file FILENAME [''IN: 15000'', ''IN: -15000'', ''MID: 30000'', ''OUT: 0'']"
  have r: "snd (parse_file ?fs FILENAME) =
      Inr (Int64_array [15000, - 15000], Int64_array [30000], Int64_array [0])"
    by (simp add: parse_eval string_eval array_eval)
  have r': "snd (parse_file (one_file FILENAME [''IN: 15000\<newline>'', ''IN: -15000\<newline>'',
                                           ''MID: 30000\<newline>'', ''OUT: 0\<newline>''])
          FILENAME) = Inr (Int64_array [15000, - 15000], Int64_array [30000], Int64_array [0])"
    by (simp add: parse_eval string_eval array_eval)
  have n: "normalize_stream (Int64_array [15000, - 15000]) = Inr (Float_signal [1 / 2, - 1 / 2])"
    "normalize_stream (Int64_array [30000]) = Inr (Float_signal [1])"
    "normalize_stream (Int64_array [0]) = Inr (Float_signal [0])"
    by (simp_all add: NORM_FACTOR_def round53_exact)
  have "\<exists>fig. plot_frequency_domain (Float_signal [1 / 2, - 1 / 2]) (Float_signal [1])
      (Float_signal [0]) = Inr fig"
    by (rule plot_frequency_domain_returns) simp_all
  then obtain fig where f: "plot_frequency_domain (Float_signal [1 / 2, - 1 / 2])
      (Float_signal [1]) (Float_signal [0]) = Inr fig"
    by blast
  have pos: "0 < len (Int64_array [15000, - 15000])"
    by (simp add: len_def)
  from main_plot_ok [OF parse_file_returned [OF r] pos n f]
  have "stdout (main ?fs) =
       [''Reading resampler_output.txt...'', ''Samples Read -> In: 2, Mid: 1, Out: 1'',
        ''Normalizing all signals by Fixed Factor: 30000.0'']"
    and "calls (main ?fs) =
       [Plot_time_domain (Float_signal [1 / 2, - 1 / 2]) (Float_signal [1]) (Float_signal [0]),
        Plot_frequency_domain (Float_signal [1 / 2, - 1 / 2]) (Float_signal [1])
          (Float_signal [0]),
        Show]"
    and "raised (main ?fs) = None"
    by (simp_all add: samples_read_def len_def FILENAME_def str_nat_digit digit_char_def)
  with r r' n show ?thesis
    by (simp only:)
qed

end
